theory Spec2Isabelle
  imports Complex_Main
begin

section \<open>The DQN agent of rltf: actor loop, learner loop and their handshake\<close>

text \<open>
  The source is \<^verbatim>\<open>rltf/agents/dqn_agent.py\<close>, class \<^verbatim>\<open>AgentDQN\<close>. Two threads run
  over the same object: \<^verbatim>\<open>_run_env\<close> (the actor loop) and \<^verbatim>\<open>_train_model\<close> (the learner
  loop). The environment, the replay buffer, the model with its session, the exploration
  and learning-rate schedules, numpy's random generator and the logger are collaborators
  of the class: their behaviour is a parameter of the development (the record \<open>ext\<close>),
  their joint state is the abstract component \<open>world\<close> of the agent, and every call the
  agent makes to one of them is appended to the history \<open>calls\<close>.
\<close>

subsection \<open>Python values and errors\<close>

datatype error = AssertionError | ZeroDivisionError | InvalidConfiguration

text \<open>Python's \<^verbatim>\<open>a % b\<close> on integers: floored, and it raises on a zero divisor.\<close>

definition py_mod :: "int \<Rightarrow> int \<Rightarrow> error + int" where
  "py_mod a b = (if b = 0 then Inl ZeroDivisionError else Inr (a mod b))"

text \<open>The test \<^verbatim>\<open>a % b == 0\<close>.\<close>

definition py_divides :: "int \<Rightarrow> int \<Rightarrow> error + bool" where
  "py_divides a b = (case py_mod a b of Inl e \<Rightarrow> Inl e | Inr r \<Rightarrow> Inr (r = 0))"

subsection \<open>Calls to the collaborators\<close>

text \<open>
  The feed dictionary of lines 157-167: the sampled batch, the learning rate and the
  exploration value at \<open>t\<close>, and the two episode-reward statistics of the agent.
\<close>

record 'b feed_dict =
  fd_batch :: 'b
  fd_learn_rate :: real
  fd_epsilon :: real
  fd_mean_ep_rew :: real
  fd_best_mean_ep_rew :: real

datatype ('o, 's, 'b) call =
    WaitTrainDone
  | SignalActChosen
  | WaitActChosen
  | SignalTrainDone
  | EnvReset
  | EnvStep int
  | StoreFrame 'o
  | StoreEffect nat int real bool
  | EncodeRecentObs
  | ReplaySample int
  | ExplorationValue int
  | LrValue int
  | RandomUniform
  | ActionSample
  | ControlAction 's
  | RunTrain "'b feed_dict"
  | RunUpdateTarget
  | Save
  | LogProgress int

text \<open>
  The collaborators. Each function takes the state of the world and returns its result
  with the new state; \<open>'o\<close> is an observation, \<open>'s\<close> an encoded state (a stack of
  observations), \<open>'b\<close> a sampled batch. Actions are integers (the action space is
  \<^verbatim>\<open>gym.spaces.Discrete\<close>), rewards and schedule values are numbers.
\<close>

record ('w, 'o, 's, 'b) ext =
  env_reset :: "'w \<Rightarrow> 'o \<times> 'w"
  env_step :: "int \<Rightarrow> 'w \<Rightarrow> ('o \<times> real \<times> bool) \<times> 'w"
  action_space_sample :: "'w \<Rightarrow> int \<times> 'w"
  random_uniform :: "'w \<Rightarrow> real \<times> 'w"
  exploration_value :: "int \<Rightarrow> 'w \<Rightarrow> real \<times> 'w"
  lr_value :: "int \<Rightarrow> 'w \<Rightarrow> real \<times> 'w"
  rb_store_frame :: "'o \<Rightarrow> 'w \<Rightarrow> nat \<times> 'w"
  rb_store_effect :: "nat \<Rightarrow> int \<Rightarrow> real \<Rightarrow> bool \<Rightarrow> 'w \<Rightarrow> 'w"
  rb_encode_recent_obs :: "'w \<Rightarrow> 's \<times> 'w"
  rb_sample :: "int \<Rightarrow> 'w \<Rightarrow> 'b \<times> 'w"
  model_control_action :: "'s \<Rightarrow> 'w \<Rightarrow> int \<times> 'w"
  sess_run_train :: "'b feed_dict \<Rightarrow> 'w \<Rightarrow> 'w"
  sess_run_update_target :: "'w \<Rightarrow> 'w"
  save_checkpoint :: "'w \<Rightarrow> 'w"
  log_progress :: "int \<Rightarrow> 'w \<Rightarrow> 'w"

subsection \<open>The agent object\<close>

text \<open>
  The step parameters are attributes that the base class constructor leaves on the
  object (\<^verbatim>\<open>start_step\<close>, \<^verbatim>\<open>max_steps\<close>, \<^verbatim>\<open>start_train\<close>, \<^verbatim>\<open>train_freq\<close>, \<^verbatim>\<open>save_freq\<close>,
  \<^verbatim>\<open>batch_size\<close>); \<^verbatim>\<open>update_target_freq\<close> is set at line 43.
\<close>

record config =
  start_step :: int
  max_steps :: int
  start_train :: int
  train_freq :: int
  update_target_freq :: int
  save_freq :: int
  batch_size :: int

record ('w, 'o, 's, 'b) agent = config +
  learn_started :: bool
  mean_ep_rew :: real
  best_mean_ep_rew :: real
  world :: 'w
  calls :: "('o, 's, 'b) call list"

definition emit ::
  "('o, 's, 'b) call \<Rightarrow> ('w, 'o, 's, 'b) agent \<Rightarrow> ('w, 'o, 's, 'b) agent" where
  "emit c s = s\<lparr>calls := calls s @ [c]\<rparr>"

text \<open>A call that returns a value, and a call that returns nothing.\<close>

definition call_fn ::
  "('o, 's, 'b) call \<Rightarrow> ('w \<Rightarrow> 'a \<times> 'w) \<Rightarrow> ('w, 'o, 's, 'b) agent
    \<Rightarrow> 'a \<times> ('w, 'o, 's, 'b) agent" where
  "call_fn c f s = (let (r, w) = f (world s) in (r, emit c (s\<lparr>world := w\<rparr>)))"

definition call_proc ::
  "('o, 's, 'b) call \<Rightarrow> ('w \<Rightarrow> 'w) \<Rightarrow> ('w, 'o, 's, 'b) agent \<Rightarrow> ('w, 'o, 's, 'b) agent" where
  "call_proc c f s = emit c (s\<lparr>world := f (world s)\<rparr>)"

subsection \<open>The actor loop \<^verbatim>\<open>_run_env\<close>\<close>

text \<open>
  Lines 109-122. The flag \<^verbatim>\<open>learn_started\<close> is read once, at line 109; the value read
  is the argument \<open>started\<close>.
\<close>

definition choose_action ::
  "('w, 'o, 's, 'b) ext \<Rightarrow> int \<Rightarrow> bool \<Rightarrow> ('w, 'o, 's, 'b) agent
    \<Rightarrow> int \<times> ('w, 'o, 's, 'b) agent" where
  "choose_action x t started s =
     (if started then
        (let (epsilon, s1) = call_fn (ExplorationValue t) (exploration_value x t) s;
             (u, s2) = call_fn RandomUniform (random_uniform x) s1
         in if u < epsilon then call_fn ActionSample (action_space_sample x) s2
            else (let (state, s3) = call_fn EncodeRecentObs (rb_encode_recent_obs x) s2
                  in call_fn (ControlAction state) (model_control_action x state) s3))
      else call_fn ActionSample (action_space_sample x) s)"

text \<open>One iteration of the loop of line 99, lines 103-142.\<close>

definition run_env_iter ::
  "('w, 'o, 's, 'b) ext \<Rightarrow> int \<Rightarrow> 'o \<Rightarrow> ('w, 'o, 's, 'b) agent
    \<Rightarrow> 'o \<times> ('w, 'o, 's, 'b) agent" where
  "run_env_iter x t last_obs s =
     (let s1 = emit WaitTrainDone s;
          (idx, s2) = call_fn (StoreFrame last_obs) (rb_store_frame x last_obs) s1;
          (action, s3) = choose_action x t (learn_started s2) s2;
          s4 = emit SignalActChosen s3;
          ((obs, reward, done), s5) = call_fn (EnvStep action) (env_step x action) s4;
          s6 = call_proc (StoreEffect idx action reward done)
                 (rb_store_effect x idx action reward done) s5;
          (obs', s7) = (if done then call_fn EnvReset (env_reset x) s6 else (obs, s6))
      in (obs', call_proc (LogProgress t) (log_progress x t) s7))"

fun run_env_loop ::
  "('w, 'o, 's, 'b) ext \<Rightarrow> int list \<Rightarrow> 'o \<Rightarrow> ('w, 'o, 's, 'b) agent
    \<Rightarrow> 'o \<times> ('w, 'o, 's, 'b) agent" where
  "run_env_loop x [] last_obs s = (last_obs, s)"
| "run_env_loop x (t # ts) last_obs s =
     (let (obs, s') = run_env_iter x t last_obs s in run_env_loop x ts obs s')"

text \<open>\<^verbatim>\<open>range(self.start_step, self.max_steps+1)\<close>, lines 99 and 147.\<close>

definition step_range :: "'a config_scheme \<Rightarrow> int list" where
  "step_range s = [start_step s..max_steps s]"

definition run_env :: "('w, 'o, 's, 'b) ext \<Rightarrow> ('w, 'o, 's, 'b) agent \<Rightarrow> ('w, 'o, 's, 'b) agent" where
  "run_env x s =
     (let (last_obs, s0) = call_fn EnvReset (env_reset x) s
      in snd (run_env_loop x (step_range s0) last_obs s0))"

subsection \<open>The learner loop \<^verbatim>\<open>_train_model\<close>\<close>

text \<open>
  The condition of line 149; \<^verbatim>\<open>and\<close> does not evaluate its right operand when the left
  one is false.
\<close>

definition train_cond :: "'a config_scheme \<Rightarrow> int \<Rightarrow> error + bool" where
  "train_cond s t = (if t \<ge> start_train s then py_divides t (train_freq s) else Inr False)"

text \<open>
  An iteration ends normally (\<open>Inr\<close>) or with the exception of a \<^verbatim>\<open>%\<close>, which ends
  the thread; the agent is returned in both cases, as the exception leaves it.
\<close>

type_synonym ('w, 'o, 's, 'b) outcome =
  "(error \<times> ('w, 'o, 's, 'b) agent) + ('w, 'o, 's, 'b) agent"

text \<open>Lines 151-176, the training branch.\<close>

definition train_branch ::
  "('w, 'o, 's, 'b) ext \<Rightarrow> int \<Rightarrow> ('w, 'o, 's, 'b) agent \<Rightarrow> ('w, 'o, 's, 'b) outcome" where
  "train_branch x t s =
     (let s1 = s\<lparr>learn_started := True\<rparr>;
          (batch, s2) = call_fn (ReplaySample (batch_size s1)) (rb_sample x (batch_size s1)) s1;
          (lr, s3) = call_fn (LrValue t) (lr_value x t) s2;
          (eps, s4) = call_fn (ExplorationValue t) (exploration_value x t) s3;
          feed = \<lparr>fd_batch = batch, fd_learn_rate = lr, fd_epsilon = eps,
                  fd_mean_ep_rew = mean_ep_rew s4,
                  fd_best_mean_ep_rew = best_mean_ep_rew s4\<rparr>;
          s5 = emit WaitActChosen s4;
          s6 = call_proc (RunTrain feed) (sess_run_train x feed) s5
      in case py_divides t (update_target_freq s6) of
           Inl e \<Rightarrow> Inl (e, s6)
         | Inr True \<Rightarrow> Inr (call_proc RunUpdateTarget (sess_run_update_target x) s6)
         | Inr False \<Rightarrow> Inr s6)"

text \<open>Lines 181-184.\<close>

definition save_and_signal ::
  "('w, 'o, 's, 'b) ext \<Rightarrow> int \<Rightarrow> ('w, 'o, 's, 'b) agent \<Rightarrow> ('w, 'o, 's, 'b) outcome" where
  "save_and_signal x t s =
     (case py_divides t (save_freq s) of
        Inl e \<Rightarrow> Inl (e, s)
      | Inr True \<Rightarrow> Inr (emit SignalTrainDone (call_proc Save (save_checkpoint x) s))
      | Inr False \<Rightarrow> Inr (emit SignalTrainDone s))"

text \<open>One iteration of the loop of line 147, lines 149-184.\<close>

definition train_model_iter ::
  "('w, 'o, 's, 'b) ext \<Rightarrow> int \<Rightarrow> ('w, 'o, 's, 'b) agent \<Rightarrow> ('w, 'o, 's, 'b) outcome" where
  "train_model_iter x t s =
     (case train_cond s t of
        Inl e \<Rightarrow> Inl (e, s)
      | Inr True \<Rightarrow>
          (case train_branch x t s of
             Inl r \<Rightarrow> Inl r
           | Inr s' \<Rightarrow> save_and_signal x t s')
      | Inr False \<Rightarrow> save_and_signal x t (emit WaitActChosen s))"

fun train_model_loop ::
  "('w, 'o, 's, 'b) ext \<Rightarrow> int list \<Rightarrow> ('w, 'o, 's, 'b) agent \<Rightarrow> ('w, 'o, 's, 'b) outcome" where
  "train_model_loop x [] s = Inr s"
| "train_model_loop x (t # ts) s =
     (case train_model_iter x t s of
        Inl r \<Rightarrow> Inl r
      | Inr s' \<Rightarrow> train_model_loop x ts s')"

definition train_model ::
  "('w, 'o, 's, 'b) ext \<Rightarrow> ('w, 'o, 's, 'b) agent \<Rightarrow> ('w, 'o, 's, 'b) outcome" where
  "train_model x s = train_model_loop x (step_range s) s"

text \<open>Line 186: \<^verbatim>\<open>def reset(self): pass\<close>. The method returns \<^verbatim>\<open>None\<close>.\<close>

definition reset :: "('w, 'o, 's, 'b) agent \<Rightarrow> unit \<times> ('w, 'o, 's, 'b) agent" where
  "reset s = ((), s)"


subsection \<open>Reading an outcome and the history\<close>

text \<open>The agent as an iteration leaves it, and the calls made since an earlier state.\<close>

definition final_agent :: "('w, 'o, 's, 'b) outcome \<Rightarrow> ('w, 'o, 's, 'b) agent" where
  "final_agent r = (case r of Inl (e, s) \<Rightarrow> s | Inr s \<Rightarrow> s)"

definition calls_since ::
  "('w, 'o, 's, 'b) agent \<Rightarrow> ('w, 'o, 's, 'b) agent \<Rightarrow> ('o, 's, 'b) call list" where
  "calls_since s s' = drop (length (calls s)) (calls s')"


text \<open>The feed dictionary that lines 154-167 build from the state at the start of the branch.\<close>

definition the_feed ::
  "('w, 'o, 's, 'b) ext \<Rightarrow> int \<Rightarrow> ('w, 'o, 's, 'b) agent \<Rightarrow> 'b feed_dict" where
  "the_feed x t s =
     (let b = rb_sample x (batch_size s) (world s);
          l = lr_value x t (snd b);
          e = exploration_value x t (snd l)
      in \<lparr>fd_batch = fst b, fd_learn_rate = fst l, fd_epsilon = fst e,
          fd_mean_ep_rew = mean_ep_rew s, fd_best_mean_ep_rew = best_mean_ep_rew s\<rparr>)"


subsection \<open>A concrete configuration\<close>

text \<open>
  A small deterministic stand-in for the collaborators, with a counter as the world, and
  an agent over it: steps 0 to 3, training from step 2 every 2 steps, target refresh
  every 4 steps, checkpoint every 3 steps.
\<close>

definition demo_ext :: "(nat, nat, nat, nat) ext" where
  "demo_ext =
     \<lparr>env_reset = (\<lambda>w. (0, Suc w)),
      env_step = (\<lambda>a w. ((w, 1, w = 5), Suc w)),
      action_space_sample = (\<lambda>w. (2, Suc w)),
      random_uniform = (\<lambda>w. (1 / 2, Suc w)),
      exploration_value = (\<lambda>t w. (1 / 10, w)),
      lr_value = (\<lambda>t w. (1 / 1000, w)),
      rb_store_frame = (\<lambda>obs w. (w, Suc w)),
      rb_store_effect = (\<lambda>idx a r d w. Suc w),
      rb_encode_recent_obs = (\<lambda>w. (9, w)),
      rb_sample = (\<lambda>n w. (w, w)),
      model_control_action = (\<lambda>st w. (3, Suc w)),
      sess_run_train = (\<lambda>feed w. Suc w),
      sess_run_update_target = (\<lambda>w. Suc w),
      save_checkpoint = (\<lambda>w. w),
      log_progress = (\<lambda>t w. w)\<rparr>"

definition demo_agent :: "(nat, nat, nat, nat) agent" where
  "demo_agent =
     \<lparr>start_step = 0, max_steps = 3, start_train = 2, train_freq = 2,
      update_target_freq = 4, save_freq = 3, batch_size = 32,
      learn_started = False, mean_ep_rew = 0, best_mean_ep_rew = 0,
      world = 0, calls = []\<rparr>"

subsection \<open>The two threads and their handshake\<close>

text \<open>
  The loops run in two threads that share the agent. The system below has one program
  counter per thread, named after the statement the thread is at (a call is in progress
  while the counter is at its line), the loop variable of each thread, the number of
  iterations each has completed, the two events and the flag \<open>learn_started\<close>. A step
  of the system is a step of one thread; any interleaving is allowed.

  The decisions that depend on the collaborators are read from an oracle: whether the
  draw of line 113 is below \<open>epsilon\<close> at step \<open>t\<close>, and whether the environment
  reports the end of an episode at step \<open>t\<close>.
\<close>

record decisions =
  explores :: "int \<Rightarrow> bool"
  episode_done :: "int \<Rightarrow> bool"

datatype actor_pc =
    A_env_reset0    \<comment> \<open>line 97\<close>
  | A_wait          \<comment> \<open>line 103\<close>
  | A_store_frame   \<comment> \<open>line 106\<close>
  | A_read_flag     \<comment> \<open>line 109\<close>
  | A_epsilon       \<comment> \<open>lines 111-113\<close>
  | A_sample        \<comment> \<open>lines 114 and 122\<close>
  | A_encode        \<comment> \<open>line 117\<close>
  | A_infer         \<comment> \<open>line 118\<close>
  | A_signal        \<comment> \<open>line 125\<close>
  | A_env_step      \<comment> \<open>line 129\<close>
  | A_store_effect  \<comment> \<open>line 133\<close>
  | A_env_reset     \<comment> \<open>line 140\<close>
  | A_log           \<comment> \<open>line 142\<close>
  | A_finished

datatype learner_pc =
    L_test          \<comment> \<open>line 149\<close>
  | L_set_flag      \<comment> \<open>line 151\<close>
  | L_sample        \<comment> \<open>line 154\<close>
  | L_feed          \<comment> \<open>lines 157-167\<close>
  | L_wait          \<comment> \<open>line 169\<close>
  | L_train         \<comment> \<open>line 172\<close>
  | L_target_test   \<comment> \<open>line 175\<close>
  | L_update_target \<comment> \<open>line 176\<close>
  | L_wait_else     \<comment> \<open>line 179\<close>
  | L_save_test     \<comment> \<open>line 181\<close>
  | L_save          \<comment> \<open>line 182\<close>
  | L_signal        \<comment> \<open>line 184\<close>
  | L_finished

record sys =
  a_pc :: actor_pc
  a_t :: int
  a_iters :: nat
  l_pc :: learner_pc
  l_t :: int
  l_iters :: nat
  l_raised :: "error option"
  act_chosen :: bool
  train_done :: bool
  started :: bool

text \<open>
  Modelled from the spec: the events \<open>actChosen\<close> and \<open>trainDone\<close> and their
  operations \<^verbatim>\<open>_wait_act_chosen\<close>, \<^verbatim>\<open>_signal_act_chosen\<close>, \<^verbatim>\<open>_wait_train_done\<close>,
  \<^verbatim>\<open>_signal_train_done\<close> belong to the base class \<^verbatim>\<open>OffPolicyAgent\<close>, which is not
  part of the source at hand. The spec (4.2): \<open>signal()\<close> sets the event, \<open>wait()\<close>
  blocks until the event is signaled and then resets it atomically. A blocked wait has
  no successor (\<open>None\<close>).
\<close>

definition ev_signal :: "bool \<Rightarrow> bool" where
  "ev_signal ev = True"

definition ev_wait :: "bool \<Rightarrow> bool option" where
  "ev_wait ev = (if ev then Some False else None)"

text \<open>
  Modelled from the spec: the start of the two threads is in the base class as well. The
  spec (4.2): the protocol starts with \<open>trainDone\<close> pre-signaled and \<open>actChosen\<close>
  unsignaled. The flag \<open>learn_started\<close> starts false. Each thread starts at the head of
  its function.
\<close>

definition loop_entry_l :: "'a config_scheme \<Rightarrow> learner_pc" where
  "loop_entry_l c = (if start_step c \<le> max_steps c then L_test else L_finished)"

definition init_sys :: "'a config_scheme \<Rightarrow> sys" where
  "init_sys c =
     \<lparr>a_pc = A_env_reset0, a_t = start_step c, a_iters = 0,
      l_pc = loop_entry_l c, l_t = start_step c, l_iters = 0, l_raised = None,
      act_chosen = False, train_done = True, started = False\<rparr>"

text \<open>
  The end of an iteration of \<^verbatim>\<open>for t in range(start_step, max_steps+1)\<close>: the next
  value of \<open>t\<close>, or the end of the loop.
\<close>

definition a_next_iter :: "'a config_scheme \<Rightarrow> sys \<Rightarrow> sys" where
  "a_next_iter c s =
     (if a_t s < max_steps c
      then s\<lparr>a_iters := Suc (a_iters s), a_t := a_t s + 1, a_pc := A_wait\<rparr>
      else s\<lparr>a_iters := Suc (a_iters s), a_pc := A_finished\<rparr>)"

definition l_next_iter :: "'a config_scheme \<Rightarrow> sys \<Rightarrow> sys" where
  "l_next_iter c s =
     (if l_t s < max_steps c
      then s\<lparr>l_iters := Suc (l_iters s), l_t := l_t s + 1, l_pc := L_test\<rparr>
      else s\<lparr>l_iters := Suc (l_iters s), l_pc := L_finished\<rparr>)"

text \<open>One step of the actor thread, \<^verbatim>\<open>_run_env\<close>.\<close>

definition actor_step :: "'a config_scheme \<Rightarrow> decisions \<Rightarrow> sys \<Rightarrow> sys option" where
  "actor_step c orc s =
     (case a_pc s of
        A_env_reset0 \<Rightarrow>
          Some (s\<lparr>a_pc := (if start_step c \<le> max_steps c then A_wait else A_finished)\<rparr>)
      | A_wait \<Rightarrow>
          (case ev_wait (train_done s) of
             None \<Rightarrow> None
           | Some ev \<Rightarrow> Some (s\<lparr>train_done := ev, a_pc := A_store_frame\<rparr>))
      | A_store_frame \<Rightarrow> Some (s\<lparr>a_pc := A_read_flag\<rparr>)
      | A_read_flag \<Rightarrow> Some (s\<lparr>a_pc := (if started s then A_epsilon else A_sample)\<rparr>)
      | A_epsilon \<Rightarrow> Some (s\<lparr>a_pc := (if explores orc (a_t s) then A_sample else A_encode)\<rparr>)
      | A_sample \<Rightarrow> Some (s\<lparr>a_pc := A_signal\<rparr>)
      | A_encode \<Rightarrow> Some (s\<lparr>a_pc := A_infer\<rparr>)
      | A_infer \<Rightarrow> Some (s\<lparr>a_pc := A_signal\<rparr>)
      | A_signal \<Rightarrow> Some (s\<lparr>act_chosen := ev_signal (act_chosen s), a_pc := A_env_step\<rparr>)
      | A_env_step \<Rightarrow> Some (s\<lparr>a_pc := A_store_effect\<rparr>)
      | A_store_effect \<Rightarrow>
          Some (s\<lparr>a_pc := (if episode_done orc (a_t s) then A_env_reset else A_log)\<rparr>)
      | A_env_reset \<Rightarrow> Some (s\<lparr>a_pc := A_log\<rparr>)
      | A_log \<Rightarrow> Some (a_next_iter c s)
      | A_finished \<Rightarrow> None)"

text \<open>
  One step of the learner thread, \<^verbatim>\<open>_train_model\<close>. An exception of a \<^verbatim>\<open>%\<close> ends the
  thread at the line that raised it (\<open>l_raised\<close>).
\<close>

definition learner_step :: "'a config_scheme \<Rightarrow> sys \<Rightarrow> sys option" where
  "learner_step c s =
     (if l_raised s \<noteq> None then None
      else case l_pc s of
        L_test \<Rightarrow>
          (case train_cond c (l_t s) of
             Inl e \<Rightarrow> Some (s\<lparr>l_raised := Some e\<rparr>)
           | Inr b \<Rightarrow> Some (s\<lparr>l_pc := (if b then L_set_flag else L_wait_else)\<rparr>))
      | L_set_flag \<Rightarrow> Some (s\<lparr>started := True, l_pc := L_sample\<rparr>)
      | L_sample \<Rightarrow> Some (s\<lparr>l_pc := L_feed\<rparr>)
      | L_feed \<Rightarrow> Some (s\<lparr>l_pc := L_wait\<rparr>)
      | L_wait \<Rightarrow>
          (case ev_wait (act_chosen s) of
             None \<Rightarrow> None
           | Some ev \<Rightarrow> Some (s\<lparr>act_chosen := ev, l_pc := L_train\<rparr>))
      | L_train \<Rightarrow> Some (s\<lparr>l_pc := L_target_test\<rparr>)
      | L_target_test \<Rightarrow>
          (case py_divides (l_t s) (update_target_freq c) of
             Inl e \<Rightarrow> Some (s\<lparr>l_raised := Some e\<rparr>)
           | Inr b \<Rightarrow> Some (s\<lparr>l_pc := (if b then L_update_target else L_save_test)\<rparr>))
      | L_update_target \<Rightarrow> Some (s\<lparr>l_pc := L_save_test\<rparr>)
      | L_wait_else \<Rightarrow>
          (case ev_wait (act_chosen s) of
             None \<Rightarrow> None
           | Some ev \<Rightarrow> Some (s\<lparr>act_chosen := ev, l_pc := L_save_test\<rparr>))
      | L_save_test \<Rightarrow>
          (case py_divides (l_t s) (save_freq c) of
             Inl e \<Rightarrow> Some (s\<lparr>l_raised := Some e\<rparr>)
           | Inr b \<Rightarrow> Some (s\<lparr>l_pc := (if b then L_save else L_signal)\<rparr>))
      | L_save \<Rightarrow> Some (s\<lparr>l_pc := L_signal\<rparr>)
      | L_signal \<Rightarrow> Some (l_next_iter c (s\<lparr>train_done := ev_signal (train_done s)\<rparr>))
      | L_finished \<Rightarrow> None)"

text \<open>A step of the system, and the states it reaches from the start.\<close>

inductive step :: "'a config_scheme \<Rightarrow> decisions \<Rightarrow> sys \<Rightarrow> sys \<Rightarrow> bool"
  for c :: "'a config_scheme" and orc :: decisions where
  actor: "actor_step c orc s = Some s' \<Longrightarrow> step c orc s s'"
| learner: "learner_step c s = Some s' \<Longrightarrow> step c orc s s'"

inductive reachable :: "'a config_scheme \<Rightarrow> decisions \<Rightarrow> sys \<Rightarrow> bool"
  for c :: "'a config_scheme" and orc :: decisions where
  init: "reachable c orc (init_sys c)"
| step: "reachable c orc s \<Longrightarrow> step c orc s s' \<Longrightarrow> reachable c orc s'"

text \<open>
  The model executor is in use by the actor while it is at the inference call of line 118,
  and by the learner while it is at one of the \<^verbatim>\<open>sess.run\<close> calls of lines 172 and 176.
\<close>

definition inferring :: "sys \<Rightarrow> bool" where
  "inferring s = (a_pc s = A_infer)"

definition optimizing :: "sys \<Rightarrow> bool" where
  "optimizing s = (l_raised s = None \<and> (l_pc s = L_train \<or> l_pc s = L_update_target))"

text \<open>
  The part of its iteration in which a thread owns the executor: the actor from the
  return of its wait (line 103) to its signal (line 125), the learner from the return of
  its wait (line 169 or 179) to the end of the iteration. After its signal the actor has
  released the executor for the rest of its iteration.
\<close>

fun a_owns :: "actor_pc \<Rightarrow> bool" where
  "a_owns A_store_frame = True"
| "a_owns A_read_flag = True"
| "a_owns A_epsilon = True"
| "a_owns A_sample = True"
| "a_owns A_encode = True"
| "a_owns A_infer = True"
| "a_owns A_signal = True"
| "a_owns _ = False"

fun a_released :: "actor_pc \<Rightarrow> bool" where
  "a_released A_env_step = True"
| "a_released A_store_effect = True"
| "a_released A_env_reset = True"
| "a_released A_log = True"
| "a_released _ = False"

fun l_owns :: "learner_pc \<Rightarrow> bool" where
  "l_owns L_train = True"
| "l_owns L_target_test = True"
| "l_owns L_update_target = True"
| "l_owns L_save_test = True"
| "l_owns L_save = True"
| "l_owns L_signal = True"
| "l_owns _ = False"

text \<open>
  The invariant of the handshake, as two counts. The waits the actor has returned from
  and the event \<open>trainDone\<close>, if set, are the signals of the learner and the initial
  signal; the waits the learner has returned from and the event \<open>actChosen\<close>, if set,
  are the signals of the actor.
\<close>

definition tokens_inv :: "sys \<Rightarrow> bool" where
  "tokens_inv s \<longleftrightarrow>
     a_iters s + of_bool (a_owns (a_pc s) \<or> a_released (a_pc s)) + of_bool (train_done s)
       = 1 + l_iters s \<and>
     l_iters s + of_bool (l_owns (l_pc s)) + of_bool (act_chosen s)
       = a_iters s + of_bool (a_released (a_pc s))"

text \<open>
  The loop variables: inside its loop a thread is at step \<open>start_step\<close> plus the number
  of iterations it has completed, and has not passed \<open>max_steps\<close>; after its loop it has
  completed all iterations.
\<close>

definition total_iters :: "'a config_scheme \<Rightarrow> nat" where
  "total_iters c = length (step_range c)"

definition range_inv :: "'a config_scheme \<Rightarrow> sys \<Rightarrow> bool" where
  "range_inv c s \<longleftrightarrow>
     (a_pc s = A_env_reset0 \<longrightarrow> a_iters s = 0 \<and> a_t s = start_step c) \<and>
     (a_pc s = A_finished \<longrightarrow> a_iters s = total_iters c) \<and>
     (a_pc s \<noteq> A_env_reset0 \<and> a_pc s \<noteq> A_finished \<longrightarrow>
        a_t s = start_step c + int (a_iters s) \<and> a_t s \<le> max_steps c) \<and>
     (l_pc s = L_finished \<longrightarrow> l_iters s = total_iters c) \<and>
     (l_pc s \<noteq> L_finished \<longrightarrow>
        l_t s = start_step c + int (l_iters s) \<and> l_t s \<le> max_steps c)"

text \<open>
  Inside the training branch (lines 151-176) the condition of line 149 held at the step
  of the iteration.
\<close>

fun l_training :: "learner_pc \<Rightarrow> bool" where
  "l_training L_set_flag = True"
| "l_training L_sample = True"
| "l_training L_feed = True"
| "l_training L_wait = True"
| "l_training L_train = True"
| "l_training L_target_test = True"
| "l_training L_update_target = True"
| "l_training _ = False"

definition train_inv :: "'a config_scheme \<Rightarrow> sys \<Rightarrow> bool" where
  "train_inv c s \<longleftrightarrow> (l_training (l_pc s) \<longrightarrow> train_cond c (l_t s) = Inr True)"

text \<open>
  The iteration of the learner at step \<open>t\<close> ends normally: none of the \<^verbatim>\<open>%\<close> of lines
  149, 175 and 181 raises.
\<close>

definition iter_returns :: "'a config_scheme \<Rightarrow> int \<Rightarrow> bool" where
  "iter_returns c t =
     (case train_cond c t of
        Inl e \<Rightarrow> False
      | Inr b \<Rightarrow> (b \<longrightarrow> update_target_freq c \<noteq> 0) \<and> save_freq c \<noteq> 0)"

text \<open>The work a thread has left, as a number that every step of the thread decreases.\<close>

fun a_rank :: "actor_pc \<Rightarrow> nat" where
  "a_rank A_env_reset0 = 14"
| "a_rank A_wait = 13"
| "a_rank A_store_frame = 12"
| "a_rank A_read_flag = 11"
| "a_rank A_epsilon = 10"
| "a_rank A_encode = 9"
| "a_rank A_infer = 8"
| "a_rank A_sample = 8"
| "a_rank A_signal = 7"
| "a_rank A_env_step = 6"
| "a_rank A_store_effect = 5"
| "a_rank A_env_reset = 4"
| "a_rank A_log = 3"
| "a_rank A_finished = 0"

fun l_rank :: "learner_pc \<Rightarrow> nat" where
  "l_rank L_test = 13"
| "l_rank L_set_flag = 12"
| "l_rank L_sample = 11"
| "l_rank L_feed = 10"
| "l_rank L_wait = 9"
| "l_rank L_train = 8"
| "l_rank L_target_test = 7"
| "l_rank L_update_target = 6"
| "l_rank L_wait_else = 9"
| "l_rank L_save_test = 5"
| "l_rank L_save = 4"
| "l_rank L_signal = 3"
| "l_rank L_finished = 0"

definition work :: "'a config_scheme \<Rightarrow> sys \<Rightarrow> nat" where
  "work c s =
     (total_iters c - a_iters s) * 15 + a_rank (a_pc s) +
     (total_iters c - l_iters s) * 15 + l_rank (l_pc s) +
     (if l_raised s = None then 1 else 0)"

definition finished :: "sys \<Rightarrow> bool" where
  "finished s = (a_pc s = A_finished \<and> l_pc s = L_finished \<and> l_raised s = None)"

subsection \<open>Construction, \<^verbatim>\<open>AgentDQN.__init__\<close>\<close>

text \<open>The kinds of \<^verbatim>\<open>gym.spaces\<close> the assertions of lines 37-38 tell apart.\<close>

datatype space = is_Box: Box "int list" | is_Discrete: Discrete int | OtherSpace

text \<open>
  The arguments: the object as \<^verbatim>\<open>super().__init__(**agent_kwargs)\<close> leaves it (the base
  class is not part of the source at hand, so its result is a parameter), the spaces of
  its environment, and the keyword arguments of lines 18-20.
\<close>

record ('w, 'o, 's, 'b) init_args =
  base_self :: "('w, 'o, 's, 'b) agent"
  env_observation_space :: space
  env_action_space :: space
  arg_update_target_freq :: int
  arg_memory_size :: int
  arg_obs_hist_len :: int

text \<open>
  Modelled from the spec: the constructor of \<^verbatim>\<open>ReplayBuffer\<close> (module \<^verbatim>\<open>rltf.memory\<close>)
  is not part of the source at hand. The spec (7): \<open>InvalidConfiguration\<close> is raised at
  construction when the capacity is smaller than the history length.
\<close>

definition ReplayBuffer_init :: "int \<Rightarrow> int \<Rightarrow> error + unit" where
  "ReplayBuffer_init memory_size obs_len =
     (if memory_size < obs_len then Inl InvalidConfiguration else Inr ())"

text \<open>
  Lines 35-66. The assertions of lines 37-39 come first, in this order; the constructor
  of the model (line 57) is a collaborator and is taken to return.
\<close>

definition init :: "('w, 'o, 's, 'b) init_args \<Rightarrow> error + ('w, 'o, 's, 'b) agent" where
  "init a =
     (if \<not> is_Box (env_observation_space a) then Inl AssertionError
      else if \<not> is_Discrete (env_action_space a) then Inl AssertionError
      else case py_divides (arg_update_target_freq a) (train_freq (base_self a)) of
             Inl e \<Rightarrow> Inl e
           | Inr False \<Rightarrow> Inl AssertionError
           | Inr True \<Rightarrow>
               (case ReplayBuffer_init (arg_memory_size a) (arg_obs_hist_len a) of
                  Inl e \<Rightarrow> Inl e
                | Inr u \<Rightarrow>
                    Inr ((base_self a)\<lparr>update_target_freq := arg_update_target_freq a\<rparr>)))"


subsection \<open>Schedules\<close>

text \<open>
  Two schedules of the system, used to exhibit reachable states: the actor alone for a
  number of steps, and the learner alone for a number of steps or until it has completed
  \<open>k\<close> iterations. A thread that cannot move stays where it is.
\<close>

fun a_run :: "'a config_scheme \<Rightarrow> decisions \<Rightarrow> nat \<Rightarrow> sys \<Rightarrow> sys" where
  "a_run c orc 0 s = s"
| "a_run c orc (Suc n) s =
     (case actor_step c orc s of None \<Rightarrow> s | Some s' \<Rightarrow> a_run c orc n s')"

fun l_run :: "'a config_scheme \<Rightarrow> nat \<Rightarrow> nat \<Rightarrow> sys \<Rightarrow> sys" where
  "l_run c k 0 s = s"
| "l_run c k (Suc n) s =
     (if k \<le> l_iters s then s
      else case learner_step c s of None \<Rightarrow> s | Some s' \<Rightarrow> l_run c k n s')"

text \<open>
  The start of round \<open>k\<close>: both threads at the head of iteration \<open>k\<close> of their loops,
  \<open>trainDone\<close> signaled and \<open>actChosen\<close> not.
\<close>

definition round_start :: "'a config_scheme \<Rightarrow> nat \<Rightarrow> sys \<Rightarrow> bool" where
  "round_start c k s \<longleftrightarrow>
     a_pc s = A_wait \<and> l_pc s = L_test \<and> a_iters s = k \<and> l_iters s = k \<and>
     a_t s = start_step c + int k \<and> l_t s = start_step c + int k \<and>
     train_done s \<and> \<not> act_chosen s \<and> l_raised s = None"

subsection \<open>A concrete run of the two threads\<close>

text \<open>
  The concrete configuration with training from step 0 on, and decisions for it: the
  draw is never below \<open>epsilon\<close>, and the episode ends at step 2.
\<close>

definition demo_config :: "(nat, nat, nat, nat) agent" where
  "demo_config = demo_agent\<lparr>start_train := 0\<rparr>"

definition demo_decisions :: decisions where
  "demo_decisions = \<lparr>explores = (\<lambda>t. False), episode_done = (\<lambda>t. t = 2)\<rparr>"

text \<open>
  The state after round 0 and five more steps of the actor: the actor is at the
  inference call of step 1.
\<close>

definition demo_inferring :: sys where
  "demo_inferring =
     a_run demo_config demo_decisions 5
       (l_run demo_config 1 11
          (a_run demo_config demo_decisions 12 (init_sys demo_config)))"

section \<open>Properties of the two loops\<close>

subsection \<open>Fields after a call\<close>

lemma emit_sel [simp]:
  "calls (emit c s) = calls s @ [c]"
  "world (emit c s) = world s"
  "learn_started (emit c s) = learn_started s"
  "mean_ep_rew (emit c s) = mean_ep_rew s"
  "best_mean_ep_rew (emit c s) = best_mean_ep_rew s"
  "start_step (emit c s) = start_step s"
  "max_steps (emit c s) = max_steps s"
  "start_train (emit c s) = start_train s"
  "train_freq (emit c s) = train_freq s"
  "update_target_freq (emit c s) = update_target_freq s"
  "save_freq (emit c s) = save_freq s"
  "batch_size (emit c s) = batch_size s"
  by (simp_all add: emit_def)

lemma call_fn_eq:
  "call_fn c f s = (fst (f (world s)), emit c (s\<lparr>world := snd (f (world s))\<rparr>))"
  by (simp add: call_fn_def split_beta)

lemma choose_action_calls:
  "calls (snd (choose_action x t b s)) = calls s @
     (if b then
        (let (eps, w1) = exploration_value x t (world s); (u, w2) = random_uniform x w1
         in if u < eps then [ExplorationValue t, RandomUniform, ActionSample]
            else [ExplorationValue t, RandomUniform, EncodeRecentObs,
                  ControlAction (fst (rb_encode_recent_obs x w2))])
      else [ActionSample])"
  by (simp add: choose_action_def call_fn_eq Let_def split_beta)

lemma choose_action_learn_started [simp]:
  "learn_started (snd (choose_action x t b s)) = learn_started s"
  by (simp add: choose_action_def call_fn_eq Let_def split_beta)


lemma run_env_iter_calls:
  "calls (snd (run_env_iter x t last_obs s)) =
     (let sf = rb_store_frame x last_obs (world s);
          s2 = emit (StoreFrame last_obs) ((emit WaitTrainDone s)\<lparr>world := snd sf\<rparr>);
          ca = choose_action x t (learn_started s) s2;
          r = fst (env_step x (fst ca) (world (snd ca)))
      in calls (snd ca) @
           [SignalActChosen, EnvStep (fst ca),
            StoreEffect (fst sf) (fst ca) (fst (snd r)) (snd (snd r))] @
           (if snd (snd r) then [EnvReset] else []) @ [LogProgress t])"
  by (simp add: run_env_iter_def call_fn_eq call_proc_def Let_def split_beta)

lemma run_env_iter_shape:
  "\<exists>idx action reward done choice.
     calls (snd (run_env_iter x t last_obs s)) =
       calls s @ [WaitTrainDone, StoreFrame last_obs] @ choice @
         [SignalActChosen, EnvStep action, StoreEffect idx action reward done] @
         (if done then [EnvReset] else []) @ [LogProgress t] \<and>
     idx = fst (rb_store_frame x last_obs (world s)) \<and>
     choice \<noteq> [] \<and>
     set choice \<subseteq> {ExplorationValue t, RandomUniform, ActionSample, EncodeRecentObs}
                    \<union> range ControlAction"
  unfolding run_env_iter_calls choose_action_calls Let_def split_beta
  by (intro exI conjI) (simp, simp, auto)

text \<open>
  C2. In every iteration of the actor loop the calls are, in this order: the wait on
  \<open>trainDone\<close>, \<open>store_frame\<close> of the current observation, the calls of the
  action choice (at least one, among the exploration schedule, the random draw, the
  sampling of an action, the encoding of the recent observations and the inference of the
  model), the signal \<open>actChosen\<close>, the step of the environment with the action that the
  choice returned, \<open>store_effect\<close> on the index that \<open>store_frame\<close> returned with
  that action and the reward and the flag \<open>done\<close> that the step returned, the reset of
  the environment exactly when that \<open>done\<close> is true, and the progress log. The world is
  left as these calls leave it, and the observation kept for the next iteration is the
  one of the reset when \<open>done\<close>, and the one of the step otherwise.
\<close>

theorem run_env_iter_order:
  "let sf = rb_store_frame x last_obs (world s);
       s2 = s\<lparr>world := snd sf, calls := calls s @ [WaitTrainDone, StoreFrame last_obs]\<rparr>;
       ca = choose_action x t (learn_started s) s2;
       action = fst ca;
       st = env_step x action (world (snd ca));
       reward = fst (snd (fst st));
       dn = snd (snd (fst st));
       w5 = rb_store_effect x (fst sf) action reward dn (snd st);
       rs = env_reset x w5
   in calls (snd (run_env_iter x t last_obs s)) =
        calls s @ [WaitTrainDone, StoreFrame last_obs] @ calls_since s2 (snd ca) @
          [SignalActChosen, EnvStep action, StoreEffect (fst sf) action reward dn] @
          (if dn then [EnvReset] else []) @ [LogProgress t] \<and>
      calls_since s2 (snd ca) \<noteq> [] \<and>
      set (calls_since s2 (snd ca)) \<subseteq>
        {ExplorationValue t, RandomUniform, ActionSample, EncodeRecentObs}
          \<union> range ControlAction \<and>
      world (snd (run_env_iter x t last_obs s)) =
        log_progress x t (if dn then snd rs else w5) \<and>
      fst (run_env_iter x t last_obs s) = (if dn then fst rs else fst (fst st))"
  by (simp add: run_env_iter_def call_fn_eq call_proc_def emit_def Let_def split_beta
      calls_since_def choose_action_calls)

lemma final_agent_simps [simp]:
  "final_agent (Inl (e, s)) = s" "final_agent (Inr s) = s"
  by (simp_all add: final_agent_def)

lemma save_and_signal_calls:
  "calls (final_agent (save_and_signal x t s)) = calls s @
     (case py_divides t (save_freq s) of
        Inl e \<Rightarrow> []
      | Inr b \<Rightarrow> (if b then [Save] else []) @ [SignalTrainDone])"
  by (simp add: save_and_signal_def call_proc_def split: sum.splits bool.splits)

lemma train_branch_calls:
  "calls (final_agent (train_branch x t s)) = calls s @
     [ReplaySample (batch_size s), LrValue t, ExplorationValue t, WaitActChosen,
      RunTrain (the_feed x t s)] @
     (case py_divides t (update_target_freq s) of
        Inl e \<Rightarrow> []
      | Inr b \<Rightarrow> (if b then [RunUpdateTarget] else []))"
  by (simp add: train_branch_def call_fn_eq call_proc_def the_feed_def Let_def split_beta
      split: sum.splits bool.splits)

lemma train_branch_config:
  "train_branch x t s = Inr s' \<Longrightarrow> save_freq s' = save_freq s"
  by (auto simp add: train_branch_def call_fn_eq call_proc_def Let_def split_beta
      split: sum.splits bool.splits)

lemma train_branch_result:
  "(\<exists>s'. train_branch x t s = Inr s') \<longleftrightarrow> update_target_freq s \<noteq> 0"
  by (auto simp add: train_branch_def call_fn_eq call_proc_def Let_def split_beta
      py_divides_def py_mod_def split: sum.splits bool.splits)

lemma train_model_iter_calls:
  "calls (final_agent (train_model_iter x t s)) = calls s @
     (case train_cond s t of
        Inl e \<Rightarrow> []
      | Inr True \<Rightarrow>
          [ReplaySample (batch_size s), LrValue t, ExplorationValue t, WaitActChosen,
           RunTrain (the_feed x t s)] @
          (case py_divides t (update_target_freq s) of
             Inl e \<Rightarrow> []
           | Inr b \<Rightarrow> (if b then [RunUpdateTarget] else []) @
               (case py_divides t (save_freq s) of
                  Inl e \<Rightarrow> []
                | Inr b \<Rightarrow> (if b then [Save] else []) @ [SignalTrainDone]))
      | Inr False \<Rightarrow>
          [WaitActChosen] @
          (case py_divides t (save_freq s) of
             Inl e \<Rightarrow> []
           | Inr b \<Rightarrow> (if b then [Save] else []) @ [SignalTrainDone]))"
proof (cases "train_cond s t")
  case (Inl e)
  then show ?thesis by (simp add: train_model_iter_def)
next
  case (Inr b)
  show ?thesis
  proof (cases b)
    case False
    with Inr show ?thesis
      by (simp add: train_model_iter_def save_and_signal_calls)
  next
    case True
    show ?thesis
    proof (cases "train_branch x t s")
      case (Inl r)
      then have "update_target_freq s = 0"
        using train_branch_result [of x t s] by auto
      moreover have "calls (final_agent (train_branch x t s)) = calls (snd r)"
        using Inl by (cases r) simp
      ultimately show ?thesis
        using Inr True Inl train_branch_calls [of x t s]
        by (cases r) (simp add: train_model_iter_def py_divides_def py_mod_def)
    next
      case (Inr s')
      then have nz: "update_target_freq s \<noteq> 0"
        using train_branch_result [of x t s] by auto
      have c: "calls s' = calls s @
          [ReplaySample (batch_size s), LrValue t, ExplorationValue t, WaitActChosen,
           RunTrain (the_feed x t s)] @
          (case py_divides t (update_target_freq s) of
             Inl e \<Rightarrow> []
           | Inr b \<Rightarrow> (if b then [RunUpdateTarget] else []))"
        using train_branch_calls [of x t s] unfolding Inr by simp
      have f: "save_freq s' = save_freq s"
        using Inr by (rule train_branch_config)
      have i: "train_model_iter x t s = save_and_signal x t s'"
        using \<open>train_cond s t = Inr b\<close> True Inr by (simp add: train_model_iter_def)
      show ?thesis
        unfolding i save_and_signal_calls c f
        using \<open>train_cond s t = Inr b\<close> True nz
        by (simp add: py_divides_def py_mod_def)
    qed
  qed
qed

lemma choose_action_fst:
  "fst (choose_action x t b s) =
     (if b then
        (let (eps, w1) = exploration_value x t (world s); (u, w2) = random_uniform x w1
         in if u < eps then fst (action_space_sample x w2)
            else (let (st, w3) = rb_encode_recent_obs x w2
                  in fst (model_control_action x st w3)))
      else fst (action_space_sample x (world s)))"
  by (simp add: choose_action_def call_fn_eq Let_def split_beta)

text \<open>
  C3. When the flag \<open>learn_started\<close> is false, the action is the result of
  \<open>action_space.sample()\<close>, and the iteration calls neither the inference of the model
  nor \<open>encode_recent_obs\<close>.
\<close>

theorem run_env_iter_not_started:
  assumes "\<not> learn_started s"
  shows "fst (choose_action x t (learn_started s) s) = fst (action_space_sample x (world s)) \<and>
         calls (snd (choose_action x t (learn_started s) s)) = calls s @ [ActionSample] \<and>
         (\<exists>idx action reward done new.
            calls (snd (run_env_iter x t last_obs s)) = calls s @ new \<and>
            new = [WaitTrainDone, StoreFrame last_obs, ActionSample, SignalActChosen,
                   EnvStep action, StoreEffect idx action reward done] @
                  (if done then [EnvReset] else []) @ [LogProgress t] \<and>
            action = fst (action_space_sample x (snd (rb_store_frame x last_obs (world s)))) \<and>
            EncodeRecentObs \<notin> set new \<and> (\<forall>st. ControlAction st \<notin> set new))"
  using assms
  unfolding run_env_iter_calls choose_action_calls choose_action_fst Let_def split_beta
  by (intro conjI exI) (simp, simp, simp, simp, simp, simp, simp)

theorem run_env_iter_not_started_witness:
  "\<not> learn_started demo_agent \<and>
   fst (choose_action demo_ext 0 (learn_started demo_agent) demo_agent) = 2 \<and>
   calls (snd (choose_action demo_ext 0 (learn_started demo_agent) demo_agent)) = [ActionSample]"
  using run_env_iter_not_started [of demo_agent demo_ext 0 0]
  by (simp add: demo_agent_def demo_ext_def)

text \<open>
  C7. When the flag \<open>learn_started\<close> is true, the iteration asks the exploration
  schedule for \<open>epsilon\<close> at \<open>t\<close> and draws \<open>u\<close>; when \<open>u < epsilon\<close> the action is
  the result of \<open>action_space.sample()\<close>, otherwise it is the result of the model's
  \<open>control_action\<close> on the state that \<open>encode_recent_obs\<close> returned. That action is
  the one applied to the environment and stored.
\<close>

theorem run_env_iter_epsilon_greedy:
  assumes "learn_started s"
  shows "let w1 = snd (rb_store_frame x last_obs (world s));
             (epsilon, w2) = exploration_value x t w1;
             (u, w3) = random_uniform x w2;
             (state, w4) = rb_encode_recent_obs x w3;
             action = (if u < epsilon then fst (action_space_sample x w3)
                       else fst (model_control_action x state w4))
         in \<exists>idx reward done.
              calls (snd (run_env_iter x t last_obs s)) =
                calls s @ [WaitTrainDone, StoreFrame last_obs, ExplorationValue t, RandomUniform] @
                  (if u < epsilon then [ActionSample] else [EncodeRecentObs, ControlAction state]) @
                  [SignalActChosen, EnvStep action, StoreEffect idx action reward done] @
                  (if done then [EnvReset] else []) @ [LogProgress t]"
  using assms
  unfolding run_env_iter_calls choose_action_calls choose_action_fst Let_def split_beta
  by auto

theorem run_env_iter_epsilon_greedy_witness:
  "learn_started (demo_agent\<lparr>learn_started := True\<rparr>) \<and>
   (\<exists>idx reward done.
      calls (snd (run_env_iter demo_ext 2 7 (demo_agent\<lparr>learn_started := True\<rparr>))) =
        [WaitTrainDone, StoreFrame 7, ExplorationValue 2, RandomUniform,
         EncodeRecentObs, ControlAction 9, SignalActChosen, EnvStep 3,
         StoreEffect idx 3 reward done] @ (if done then [EnvReset] else []) @ [LogProgress 2])"
  using run_env_iter_epsilon_greedy [of "demo_agent\<lparr>learn_started := True\<rparr>" demo_ext 7 2]
  by (simp add: demo_agent_def demo_ext_def)

text \<open>
  C10. \<open>reset\<close> returns nothing and leaves the agent as it was: the world of the
  collaborators (replay buffer, model, environment), the history, the flag
  \<open>learn_started\<close> and the step parameters.
\<close>

theorem reset_is_noop:
  "reset s = ((), s) \<and> snd (reset s) = s \<and>
   world (snd (reset s)) = world s \<and> calls (snd (reset s)) = calls s \<and>
   learn_started (snd (reset s)) = learn_started s \<and>
   start_step (snd (reset s)) = start_step s \<and> max_steps (snd (reset s)) = max_steps s"
  by (simp add: reset_def)

lemma calls_since_append [simp]: "calls s' = calls s @ new \<Longrightarrow> calls_since s s' = new"
  by (simp add: calls_since_def)

lemma train_model_iter_since:
  "calls_since s (final_agent (train_model_iter x t s)) =
     (case train_cond s t of
        Inl e \<Rightarrow> []
      | Inr True \<Rightarrow>
          [ReplaySample (batch_size s), LrValue t, ExplorationValue t, WaitActChosen,
           RunTrain (the_feed x t s)] @
          (case py_divides t (update_target_freq s) of
             Inl e \<Rightarrow> []
           | Inr b \<Rightarrow> (if b then [RunUpdateTarget] else []) @
               (case py_divides t (save_freq s) of
                  Inl e \<Rightarrow> []
                | Inr b \<Rightarrow> (if b then [Save] else []) @ [SignalTrainDone]))
      | Inr False \<Rightarrow>
          [WaitActChosen] @
          (case py_divides t (save_freq s) of
             Inl e \<Rightarrow> []
           | Inr b \<Rightarrow> (if b then [Save] else []) @ [SignalTrainDone]))"
  by (rule calls_since_append) (rule train_model_iter_calls)

text \<open>
  C6. In the iteration at step \<open>t\<close> the target refresh is run exactly when the training
  condition of line 149 holds and \<open>t % update_target_freq == 0\<close>. With non-zero
  frequencies this is: \<open>t \<ge> start_train\<close>, \<open>t mod train_freq = 0\<close> and
  \<open>t mod update_target_freq = 0\<close>. In particular no refresh happens at a step without
  training.
\<close>

theorem update_target_iff:
  "(RunUpdateTarget \<in> set (calls_since s (final_agent (train_model_iter x t s))) \<longleftrightarrow>
      train_cond s t = Inr True \<and> py_divides t (update_target_freq s) = Inr True) \<and>
   (train_freq s \<noteq> 0 \<and> update_target_freq s \<noteq> 0 \<longrightarrow>
      (RunUpdateTarget \<in> set (calls_since s (final_agent (train_model_iter x t s))) \<longleftrightarrow>
         (t \<ge> start_train s \<and> t mod train_freq s = 0) \<and> t mod update_target_freq s = 0))"
  unfolding train_model_iter_since
  by (auto simp: train_cond_def py_divides_def py_mod_def split: sum.splits bool.splits if_splits)

theorem update_target_iff_witness:
  "train_freq demo_agent \<noteq> 0 \<and> update_target_freq demo_agent \<noteq> 0 \<and>
   RunUpdateTarget \<in> set (calls_since demo_agent (final_agent (train_model_iter demo_ext 4 demo_agent))) \<and>
   RunUpdateTarget \<notin> set (calls_since demo_agent (final_agent (train_model_iter demo_ext 2 demo_agent)))"
proof -
  have nz: "train_freq demo_agent \<noteq> 0 \<and> update_target_freq demo_agent \<noteq> 0"
    by (simp add: demo_agent_def)
  have a: "RunUpdateTarget \<in> set (calls_since demo_agent (final_agent (train_model_iter demo_ext 4 demo_agent)))"
    using update_target_iff [of demo_agent demo_ext 4] nz
    by (simp add: demo_agent_def train_cond_def py_divides_def py_mod_def)
  have b: "RunUpdateTarget \<notin> set (calls_since demo_agent (final_agent (train_model_iter demo_ext 2 demo_agent)))"
    using update_target_iff [of demo_agent demo_ext 2] nz
    by (simp add: demo_agent_def train_cond_def py_divides_def py_mod_def)
  from nz a b show ?thesis by blast
qed

lemma train_model_iter_returns:
  assumes "train_freq s \<noteq> 0" "update_target_freq s \<noteq> 0" "save_freq s \<noteq> 0"
  shows "\<exists>s'. train_model_iter x t s = Inr s'"
proof -
  have sv: "\<exists>s'. save_and_signal x t u = Inr s'" if "save_freq u = save_freq s" for u
    using that assms(3)
    by (cases "t mod save_freq s = 0") (simp_all add: save_and_signal_def py_divides_def py_mod_def)
  show ?thesis
  proof (cases "t \<ge> start_train s \<and> t mod train_freq s = 0")
    case True
    obtain s1 where s1: "train_branch x t s = Inr s1"
      using train_branch_result [of x t s] assms(2) by blast
    have "save_freq s1 = save_freq s" using s1 by (rule train_branch_config)
    from sv [OF this] obtain s' where "save_and_signal x t s1 = Inr s'" ..
    with True s1 assms(1) show ?thesis
      by (simp add: train_model_iter_def train_cond_def py_divides_def py_mod_def)
  next
    case False
    have "save_freq (emit WaitActChosen s) = save_freq s" by simp
    from sv [OF this] obtain s' where "save_and_signal x t (emit WaitActChosen s) = Inr s'" ..
    with False assms(1) show ?thesis
      by (auto simp add: train_model_iter_def train_cond_def py_divides_def py_mod_def)
  qed
qed

lemma train_model_iter_reached:
  assumes "train_cond s t = Inr False \<or> (train_cond s t = Inr True \<and> update_target_freq s \<noteq> 0)"
    and "save_freq s \<noteq> 0"
  shows "\<exists>s'. train_model_iter x t s = Inr s' \<and>
           calls s' = calls s @
             (if train_cond s t = Inr True
              then [ReplaySample (batch_size s), LrValue t, ExplorationValue t, WaitActChosen,
                    RunTrain (the_feed x t s)] @
                   (if t mod update_target_freq s = 0 then [RunUpdateTarget] else [])
              else [WaitActChosen]) @
             (if t mod save_freq s = 0 then [Save] else []) @ [SignalTrainDone]"
proof -
  have sv: "\<exists>s'. save_and_signal x t u = Inr s'" if "save_freq u = save_freq s" for u
    using that assms(2)
    by (cases "t mod save_freq s = 0") (simp_all add: save_and_signal_def py_divides_def py_mod_def)
  have "\<exists>s'. train_model_iter x t s = Inr s'"
  proof (cases "train_cond s t = Inr True")
    case True
    with assms(1) have "update_target_freq s \<noteq> 0" by auto
    then obtain s1 where s1: "train_branch x t s = Inr s1"
      using train_branch_result [of x t s] by blast
    have "save_freq s1 = save_freq s" using s1 by (rule train_branch_config)
    from sv [OF this] obtain s' where "save_and_signal x t s1 = Inr s'" ..
    with True s1 show ?thesis by (simp add: train_model_iter_def)
  next
    case False
    with assms(1) have f: "train_cond s t = Inr False" by auto
    have "save_freq (emit WaitActChosen s) = save_freq s" by simp
    from sv [OF this] obtain s' where "save_and_signal x t (emit WaitActChosen s) = Inr s'" ..
    with f show ?thesis by (simp add: train_model_iter_def)
  qed
  then obtain s' where r: "train_model_iter x t s = Inr s'" ..
  have "calls s' = calls (final_agent (Inr s'))" by simp
  also have "\<dots> = calls (final_agent (train_model_iter x t s))" unfolding r ..
  finally have "calls s' = calls s @
             (if train_cond s t = Inr True
              then [ReplaySample (batch_size s), LrValue t, ExplorationValue t, WaitActChosen,
                    RunTrain (the_feed x t s)] @
                   (if t mod update_target_freq s = 0 then [RunUpdateTarget] else [])
              else [WaitActChosen]) @
             (if t mod save_freq s = 0 then [Save] else []) @ [SignalTrainDone]"
    unfolding train_model_iter_calls using assms
    by (auto simp: py_divides_def py_mod_def)
  with r show ?thesis by simp
qed

text \<open>
  C8, as amended. The iteration of the learner at step \<open>t\<close> reaches line 181 unless the
  \<^verbatim>\<open>%\<close> of line 149 raises (\<open>train_freq\<close> is 0 and \<open>t \<ge> start_train\<close>) or the one of
  line 175 does (\<open>update_target_freq\<close> is 0 and the iteration trains). Whether or not it
  trains, the iteration requests a checkpoint exactly when it reaches line 181 and
  \<open>t % save_freq == 0\<close>, and it signals \<open>trainDone\<close> exactly when it reaches line 181 and
  \<open>save_freq\<close> is not 0. Then it ends normally, the signal is its last call, and the
  checkpoint request, if any, is the call just before the signal.
\<close>

theorem save_iff:
  "let new = calls_since s (final_agent (train_model_iter x t s));
       reached = (train_cond s t = Inr False \<or>
                  (train_cond s t = Inr True \<and> update_target_freq s \<noteq> 0))
   in (Save \<in> set new \<longleftrightarrow> reached \<and> py_divides t (save_freq s) = Inr True) \<and>
      (SignalTrainDone \<in> set new \<longleftrightarrow> reached \<and> save_freq s \<noteq> 0) \<and>
      (reached \<and> save_freq s \<noteq> 0 \<longrightarrow>
         (\<exists>s'. train_model_iter x t s = Inr s') \<and>
         new =
           (if train_cond s t = Inr True
            then [ReplaySample (batch_size s), LrValue t, ExplorationValue t, WaitActChosen,
                  RunTrain (the_feed x t s)] @
                 (if t mod update_target_freq s = 0 then [RunUpdateTarget] else [])
            else [WaitActChosen]) @
           (if t mod save_freq s = 0 then [Save] else []) @ [SignalTrainDone])"
proof -
  let ?new = "calls_since s (final_agent (train_model_iter x t s))"
  let ?reached = "train_cond s t = Inr False \<or>
                  (train_cond s t = Inr True \<and> update_target_freq s \<noteq> 0)"
  have a: "Save \<in> set ?new \<longleftrightarrow> ?reached \<and> py_divides t (save_freq s) = Inr True"
    unfolding train_model_iter_since
    by (cases "train_cond s t")
       (auto simp: py_divides_def py_mod_def split: sum.splits bool.splits if_splits)
  have b: "SignalTrainDone \<in> set ?new \<longleftrightarrow> ?reached \<and> save_freq s \<noteq> 0"
    unfolding train_model_iter_since
    by (cases "train_cond s t")
       (auto simp: py_divides_def py_mod_def split: sum.splits bool.splits if_splits)
  have c: "(\<exists>s'. train_model_iter x t s = Inr s') \<and>
         ?new =
           (if train_cond s t = Inr True
            then [ReplaySample (batch_size s), LrValue t, ExplorationValue t, WaitActChosen,
                  RunTrain (the_feed x t s)] @
                 (if t mod update_target_freq s = 0 then [RunUpdateTarget] else [])
            else [WaitActChosen]) @
           (if t mod save_freq s = 0 then [Save] else []) @ [SignalTrainDone]"
    if h: "?reached \<and> save_freq s \<noteq> 0"
  proof -
    from h have h1: ?reached and h2: "save_freq s \<noteq> 0" by simp_all
    from train_model_iter_reached [OF h1 h2, of x]
    obtain s' where r: "train_model_iter x t s = Inr s'"
      and cs: "calls s' = calls s @
             (if train_cond s t = Inr True
              then [ReplaySample (batch_size s), LrValue t, ExplorationValue t, WaitActChosen,
                    RunTrain (the_feed x t s)] @
                   (if t mod update_target_freq s = 0 then [RunUpdateTarget] else [])
              else [WaitActChosen]) @
             (if t mod save_freq s = 0 then [Save] else []) @ [SignalTrainDone]"
      by blast
    show ?thesis unfolding r using cs by (simp add: calls_since_def)
  qed
  show ?thesis unfolding Let_def using a b c by (intro conjI impI) simp_all
qed

theorem save_iff_witness:
  "train_cond demo_agent 3 = Inr False \<and> save_freq demo_agent \<noteq> 0 \<and>
   calls_since demo_agent (final_agent (train_model_iter demo_ext 3 demo_agent)) =
     [WaitActChosen, Save, SignalTrainDone] \<and>
   train_cond (demo_agent\<lparr>update_target_freq := 0\<rparr>) 5 = Inr False \<and>
   calls_since (demo_agent\<lparr>update_target_freq := 0\<rparr>)
     (final_agent (train_model_iter demo_ext 5 (demo_agent\<lparr>update_target_freq := 0\<rparr>))) =
     [WaitActChosen, SignalTrainDone]"
proof -
  have h: "train_cond demo_agent 3 = Inr False" "save_freq demo_agent \<noteq> 0"
    "train_cond (demo_agent\<lparr>update_target_freq := 0\<rparr>) 5 = Inr False"
    "save_freq (demo_agent\<lparr>update_target_freq := 0\<rparr>) \<noteq> 0"
    by (simp_all add: demo_agent_def train_cond_def py_divides_def py_mod_def)
  have a: "calls_since demo_agent (final_agent (train_model_iter demo_ext 3 demo_agent)) =
     [WaitActChosen, Save, SignalTrainDone]"
    using save_iff [of demo_agent demo_ext 3] h(1,2)
    by (simp add: Let_def) (simp add: demo_agent_def)
  have b: "calls_since (demo_agent\<lparr>update_target_freq := 0\<rparr>)
     (final_agent (train_model_iter demo_ext 5 (demo_agent\<lparr>update_target_freq := 0\<rparr>))) =
     [WaitActChosen, SignalTrainDone]"
    using save_iff [of "demo_agent\<lparr>update_target_freq := 0\<rparr>" demo_ext 5] h(3,4)
    by (simp add: Let_def) (simp add: demo_agent_def)
  from h a b show ?thesis by simp
qed

text \<open>
  The claim C8 as stated fails: with \<open>update_target_freq = 0\<close>, which the assertion of
  line 39 accepts, the training step 6 raises at line 175; no checkpoint is requested
  although \<open>6 mod save_freq = 0\<close>, and \<open>trainDone\<close> is not signaled.
\<close>

theorem save_iff_counterexample:
  "(6 :: int) mod save_freq (demo_agent\<lparr>update_target_freq := 0\<rparr>) = 0 \<and>
   train_cond (demo_agent\<lparr>update_target_freq := 0\<rparr>) 6 = Inr True \<and>
   isl (train_model_iter demo_ext 6 (demo_agent\<lparr>update_target_freq := 0\<rparr>)) \<and>
   Save \<notin> set (calls (final_agent
     (train_model_iter demo_ext 6 (demo_agent\<lparr>update_target_freq := 0\<rparr>)))) \<and>
   SignalTrainDone \<notin> set (calls (final_agent
     (train_model_iter demo_ext 6 (demo_agent\<lparr>update_target_freq := 0\<rparr>))))"
  by (simp add: demo_agent_def demo_ext_def train_model_iter_def train_cond_def train_branch_def
      py_divides_def py_mod_def call_fn_eq call_proc_def Let_def split_beta)

lemma train_iter_prefix:
  assumes "train_cond s t = Inr True"
  shows "\<exists>feed rest. calls_since s (final_agent (train_model_iter x t s)) =
           [ReplaySample (batch_size s), LrValue t, ExplorationValue t, WaitActChosen,
            RunTrain feed] @ rest \<and>
           set rest \<subseteq> {RunUpdateTarget, Save, SignalTrainDone}"
  unfolding train_model_iter_since using assms
  by (auto split: sum.splits bool.splits)

section \<open>The handshake\<close>

lemma total_iters_eq: "total_iters c = nat (max_steps c - start_step c + 1)"
  by (simp add: total_iters_def step_range_def)

lemma tokens_inv_init: "tokens_inv (init_sys c)"
  by (simp add: tokens_inv_def init_sys_def loop_entry_l_def)

lemma range_inv_init: "range_inv c (init_sys c)"
  by (simp add: range_inv_def init_sys_def loop_entry_l_def total_iters_eq)

lemma tokens_inv_actor:
  assumes "tokens_inv s" "actor_step c orc s = Some s'"
  shows "tokens_inv s'"
  using assms
  by (cases "a_pc s";
      clarsimp simp: tokens_inv_def actor_step_def ev_wait_def ev_signal_def a_next_iter_def
        split: if_splits; auto)

lemma a_owns_released: "\<not> (a_owns p \<and> a_released p)"
  by (cases p) simp_all

lemma tokens_inv_learner:
  assumes "tokens_inv s" "learner_step c s = Some s'"
  shows "tokens_inv s'"
  using assms a_owns_released [of "a_pc s"]
  by (cases "l_pc s"; cases "a_owns (a_pc s)"; cases "a_released (a_pc s)";
      clarsimp simp: tokens_inv_def learner_step_def ev_wait_def ev_signal_def l_next_iter_def
        split: if_splits sum.splits; auto)

lemma range_inv_actor:
  assumes "range_inv c s" "actor_step c orc s = Some s'"
  shows "range_inv c s'"
  using assms
  by (cases "a_pc s";
      clarsimp simp: range_inv_def actor_step_def ev_wait_def ev_signal_def a_next_iter_def
        total_iters_eq split: if_splits; auto)

lemma range_inv_learner:
  assumes "range_inv c s" "learner_step c s = Some s'"
  shows "range_inv c s'"
  using assms
  by (cases "l_pc s";
      clarsimp simp: range_inv_def learner_step_def ev_wait_def ev_signal_def l_next_iter_def
        total_iters_eq split: if_splits sum.splits; auto)

lemma train_inv_init: "train_inv c (init_sys c)"
  by (simp add: train_inv_def init_sys_def loop_entry_l_def)

lemma train_inv_actor:
  assumes "train_inv c s" "actor_step c orc s = Some s'"
  shows "train_inv c s'"
  using assms
  by (cases "a_pc s";
      clarsimp simp: train_inv_def actor_step_def ev_wait_def ev_signal_def a_next_iter_def
        split: if_splits)

lemma train_inv_learner:
  assumes "train_inv c s" "learner_step c s = Some s'"
  shows "train_inv c s'"
  using assms
  by (cases "l_pc s";
      clarsimp simp: train_inv_def learner_step_def ev_wait_def ev_signal_def l_next_iter_def
        split: if_splits sum.splits)

lemma reachable_train_inv:
  assumes "reachable c orc s"
  shows "train_inv c s"
  using assms
proof (induction rule: reachable.induct)
  case init
  show ?case by (rule train_inv_init)
next
  case (step s s')
  from step.hyps(2) step.IH show ?case
    by (cases rule: step.cases) (auto intro: train_inv_actor train_inv_learner)
qed

lemma reachable_inv:
  assumes "reachable c orc s"
  shows "tokens_inv s \<and> range_inv c s"
  using assms
proof (induction rule: reachable.induct)
  case init
  show ?case by (simp add: tokens_inv_init range_inv_init)
next
  case (step s s')
  from step.hyps(2) step.IH show ?case
    by (cases rule: step.cases)
       (auto intro: tokens_inv_actor tokens_inv_learner range_inv_actor range_inv_learner)
qed

lemma tokens_inv_excl: "tokens_inv s \<Longrightarrow> \<not> (a_owns (a_pc s) \<and> l_owns (l_pc s))"
  using a_owns_released [of "a_pc s"]
  by (cases "a_released (a_pc s)") (auto simp: tokens_inv_def)

lemma mutual_exclusion:
  assumes "reachable c orc s"
  shows "\<not> (inferring s \<and> optimizing s)"
proof -
  have "tokens_inv s" using reachable_inv [OF assms] by simp
  then have "\<not> (a_owns (a_pc s) \<and> l_owns (l_pc s))" by (rule tokens_inv_excl)
  then show ?thesis by (auto simp: inferring_def optimizing_def)
qed

lemma iters_lt_total:
  assumes "start_step c + int k \<le> max_steps c"
  shows "k < total_iters c"
  using assms by (simp add: total_iters_eq)

lemma work_actor:
  assumes "range_inv c s" "actor_step c orc s = Some s'"
  shows "work c s' < work c s"
proof (cases "a_pc s = A_log")
  case True
  with assms(1) have "a_iters s < total_iters c"
    by (auto simp: range_inv_def intro: iters_lt_total)
  with True assms(2) show ?thesis
    by (auto simp: actor_step_def a_next_iter_def work_def split: if_splits)
next
  case False
  with assms(2) show ?thesis
    by (cases "a_pc s";
        clarsimp simp: actor_step_def ev_wait_def ev_signal_def work_def split: if_splits)
qed

lemma work_learner:
  assumes "range_inv c s" "learner_step c s = Some s'"
  shows "work c s' < work c s"
proof (cases "l_pc s = L_signal")
  case True
  with assms(1) have "l_iters s < total_iters c"
    by (auto simp: range_inv_def intro: iters_lt_total)
  with True assms(2) show ?thesis
    by (auto simp: learner_step_def l_next_iter_def work_def split: if_splits)
next
  case False
  with assms(2) show ?thesis
    by (cases "l_pc s";
        clarsimp simp: learner_step_def ev_wait_def ev_signal_def work_def
          split: if_splits sum.splits)
qed

lemma work_step:
  assumes "reachable c orc s" "step c orc s s'"
  shows "work c s' < work c s"
proof -
  have "range_inv c s" using reachable_inv [OF assms(1)] by simp
  with assms(2) show ?thesis
    by (cases rule: step.cases) (auto intro: work_actor work_learner)
qed

lemma actor_enabled:
  assumes "a_pc s \<noteq> A_finished" "a_pc s = A_wait \<longrightarrow> train_done s"
  shows "\<exists>s'. actor_step c orc s = Some s'"
  using assms by (cases "a_pc s") (simp_all add: actor_step_def ev_wait_def)

lemma learner_enabled:
  assumes "l_raised s = None" "l_pc s \<noteq> L_finished"
    "l_pc s = L_wait \<or> l_pc s = L_wait_else \<longrightarrow> act_chosen s"
  shows "\<exists>s'. learner_step c s = Some s'"
  using assms
  by (cases "l_pc s") (auto simp add: learner_step_def ev_wait_def split: sum.splits)

lemma progress:
  assumes "tokens_inv s" "range_inv c s" "l_raised s = None" "\<not> finished s"
  shows "\<exists>s'. step c orc s s'"
proof (cases "a_pc s \<noteq> A_finished \<and> (a_pc s = A_wait \<longrightarrow> train_done s)")
  case True
  then obtain s' where "actor_step c orc s = Some s'"
    using actor_enabled [of s c orc] by blast
  then show ?thesis by (blast intro: step.actor)
next
  case a: False
  show ?thesis
  proof (cases "l_pc s \<noteq> L_finished \<and> (l_pc s = L_wait \<or> l_pc s = L_wait_else \<longrightarrow> act_chosen s)")
    case True
    then obtain s' where "learner_step c s = Some s'"
      using learner_enabled [of s c] assms(3) by blast
    then show ?thesis by (blast intro: step.learner)
  next
    case l: False
    have la: "l_pc s \<noteq> L_finished \<Longrightarrow> l_iters s < total_iters c"
      using assms(2) by (auto simp: range_inv_def intro: iters_lt_total)
    have aa: "a_pc s = A_wait \<Longrightarrow> a_iters s < total_iters c"
      using assms(2) by (auto simp: range_inv_def intro: iters_lt_total)
    have af: "a_pc s = A_finished \<Longrightarrow> a_iters s = total_iters c"
      using assms(2) by (auto simp: range_inv_def)
    have lf: "l_pc s = L_finished \<Longrightarrow> l_iters s = total_iters c"
      using assms(2) by (auto simp: range_inv_def)
    from a l assms(1,3,4) la aa af lf have False
      by (auto simp: tokens_inv_def finished_def)
    then show ?thesis ..
  qed
qed

lemma no_raise_learner:
  assumes "l_pc s \<noteq> L_finished \<longrightarrow> iter_returns c (l_t s)" "train_inv c s"
    "learner_step c s = Some s'" "l_raised s = None"
  shows "l_raised s' = None"
  using assms
  by (cases "l_pc s";
      clarsimp simp: learner_step_def ev_wait_def l_next_iter_def iter_returns_def train_inv_def
        py_divides_def py_mod_def split: if_splits sum.splits)

lemma no_raise_actor:
  assumes "actor_step c orc s = Some s'"
  shows "l_raised s' = l_raised s"
  using assms
  by (cases "a_pc s";
      clarsimp simp: actor_step_def ev_wait_def a_next_iter_def split: if_splits)

lemma no_raise:
  assumes "\<forall>t. start_step c \<le> t \<and> t \<le> max_steps c \<longrightarrow> iter_returns c t"
    "reachable c orc s"
  shows "l_raised s = None"
  using assms(2)
proof (induction rule: reachable.induct)
  case init
  show ?case by (simp add: init_sys_def)
next
  case (step s s')
  have "range_inv c s" using reachable_inv [OF step.hyps(1)] by simp
  then have r: "l_pc s \<noteq> L_finished \<longrightarrow> iter_returns c (l_t s)"
    using assms(1) by (auto simp: range_inv_def)
  have t: "train_inv c s" using step.hyps(1) by (rule reachable_train_inv)
  from step.hyps(2) step.IH show ?case
    by (cases rule: step.cases)
       (auto simp: no_raise_actor intro: no_raise_learner [OF r t])
qed

lemma reach_finished:
  assumes "\<forall>t. start_step c \<le> t \<and> t \<le> max_steps c \<longrightarrow> iter_returns c t"
    "reachable c orc s"
  shows "\<exists>s'. reachable c orc s' \<and> finished s'"
  using assms(2)
proof (induction "work c s" arbitrary: s rule: less_induct)
  case less
  show ?case
  proof (cases "finished s")
    case True
    with less.prems show ?thesis by blast
  next
    case False
    have "tokens_inv s" "range_inv c s"
      using reachable_inv [OF less.prems] by simp_all
    moreover have "l_raised s = None"
      using no_raise [OF assms(1) less.prems] .
    ultimately obtain s' where s': "step c orc s s'"
      using progress [of s c orc] False by blast
    have "reachable c orc s'" using less.prems s' by (rule reachable.step)
    moreover have "work c s' < work c s" using less.prems s' by (rule work_step)
    ultimately show ?thesis using less.hyps by blast
  qed
qed

lemma finished_iters:
  assumes "reachable c orc s" "finished s"
  shows "a_iters s = total_iters c \<and> l_iters s = total_iters c"
  using reachable_inv [OF assms(1)] assms(2)
  by (simp add: range_inv_def finished_def)

lemma run_env_iter_window:
  "\<exists>pre post.
     calls (snd (run_env_iter x t last_obs s)) =
       calls s @ [WaitTrainDone] @ pre @ [SignalActChosen] @ post \<and>
     SignalActChosen \<notin> set pre \<and> WaitTrainDone \<notin> set pre \<and>
     WaitTrainDone \<notin> set post \<and> (\<forall>st. ControlAction st \<notin> set post)"
proof -
  obtain idx action reward dn choice where
    c: "calls (snd (run_env_iter x t last_obs s)) =
       calls s @ [WaitTrainDone, StoreFrame last_obs] @ choice @
         [SignalActChosen, EnvStep action, StoreEffect idx action reward dn] @
         (if dn then [EnvReset] else []) @ [LogProgress t]"
    and ch: "set choice \<subseteq> {ExplorationValue t, RandomUniform, ActionSample, EncodeRecentObs}
                    \<union> range ControlAction"
    using run_env_iter_shape [of x t last_obs s] by blast
  let ?pre = "StoreFrame last_obs # choice"
  let ?post = "[EnvStep action, StoreEffect idx action reward dn] @
         (if dn then [EnvReset] else []) @ [LogProgress t]"
  have "calls (snd (run_env_iter x t last_obs s)) =
       calls s @ [WaitTrainDone] @ ?pre @ [SignalActChosen] @ ?post \<and>
     SignalActChosen \<notin> set ?pre \<and> WaitTrainDone \<notin> set ?pre \<and>
     WaitTrainDone \<notin> set ?post \<and> (\<forall>st. ControlAction st \<notin> set ?post)"
    unfolding c using ch by auto
  then show ?thesis by (intro exI)
qed

lemma train_model_iter_window:
  "calls (final_agent (train_model_iter x t s)) = calls s \<or>
   (\<exists>pre post.
      calls (final_agent (train_model_iter x t s)) = calls s @ pre @ [WaitActChosen] @ post \<and>
      (\<forall>f. RunTrain f \<notin> set pre) \<and> RunUpdateTarget \<notin> set pre \<and>
      WaitActChosen \<notin> set post \<and> SignalTrainDone \<notin> set pre)"
proof (cases "train_cond s t")
  case (Inl e)
  then show ?thesis by (simp add: train_model_iter_calls)
next
  case (Inr b)
  let ?tail = "case py_divides t (save_freq s) of
                 Inl e \<Rightarrow> []
               | Inr b \<Rightarrow> (if b then [Save] else []) @ [SignalTrainDone]"
  have tail: "WaitActChosen \<notin> set ?tail"
    by (simp split: sum.splits)
  show ?thesis
  proof (cases b)
    case True
    let ?pre = "[ReplaySample (batch_size s), LrValue t, ExplorationValue t]"
    let ?post = "[RunTrain (the_feed x t s)] @
          (case py_divides t (update_target_freq s) of
             Inl e \<Rightarrow> []
           | Inr b \<Rightarrow> (if b then [RunUpdateTarget] else []) @ ?tail)"
    have "calls (final_agent (train_model_iter x t s)) = calls s @ ?pre @ [WaitActChosen] @ ?post"
      unfolding train_model_iter_calls using Inr True by simp
    moreover have "WaitActChosen \<notin> set ?post"
      using tail by (simp split: sum.splits)
    moreover have "(\<forall>f. RunTrain f \<notin> set ?pre) \<and> RunUpdateTarget \<notin> set ?pre
        \<and> SignalTrainDone \<notin> set ?pre"
      by simp
    ultimately have "calls (final_agent (train_model_iter x t s)) =
        calls s @ ?pre @ [WaitActChosen] @ ?post \<and>
      (\<forall>f. RunTrain f \<notin> set ?pre) \<and> RunUpdateTarget \<notin> set ?pre \<and>
      WaitActChosen \<notin> set ?post \<and> SignalTrainDone \<notin> set ?pre"
      by (intro conjI) simp_all
    then show ?thesis by (intro disjI2 exI)
  next
    case False
    have "calls (final_agent (train_model_iter x t s)) = calls s @ [] @ [WaitActChosen] @ ?tail"
      unfolding train_model_iter_calls using Inr False by simp
    with tail have "calls (final_agent (train_model_iter x t s)) =
        calls s @ [] @ [WaitActChosen] @ ?tail \<and>
      (\<forall>f. RunTrain f \<notin> set []) \<and> RunUpdateTarget \<notin> set [] \<and>
      WaitActChosen \<notin> set ?tail \<and> SignalTrainDone \<notin> set []"
      by simp
    then show ?thesis by (intro disjI2 exI)
  qed
qed

lemma run_env_iter_waits:
  "count_list (calls (snd (run_env_iter x t last_obs s))) WaitTrainDone =
     Suc (count_list (calls s) WaitTrainDone)"
proof -
  obtain pre post where
    c: "calls (snd (run_env_iter x t last_obs s)) =
          calls s @ [WaitTrainDone] @ pre @ [SignalActChosen] @ post"
    and n: "WaitTrainDone \<notin> set pre" "WaitTrainDone \<notin> set post"
    using run_env_iter_window [of x t last_obs s] by blast
  show ?thesis unfolding c using n by (simp add: count_notin)
qed

lemma run_env_loop_waits:
  "count_list (calls (snd (run_env_loop x ts obs s))) WaitTrainDone =
     count_list (calls s) WaitTrainDone + length ts"
proof (induction ts arbitrary: obs s)
  case Nil
  show ?case by simp
next
  case (Cons t ts)
  show ?case
    by (simp add: split_beta Cons.IH run_env_iter_waits)
qed

lemma run_env_waits:
  "count_list (calls (run_env x s)) WaitTrainDone =
     count_list (calls s) WaitTrainDone + length (step_range s)"
  by (simp add: run_env_def split_beta run_env_loop_waits call_fn_eq step_range_def)

lemma save_and_signal_config:
  assumes "save_and_signal x t s = Inr s'"
  shows "train_freq s' = train_freq s \<and> update_target_freq s' = update_target_freq s \<and>
         save_freq s' = save_freq s \<and> start_train s' = start_train s"
  using assms
  by (auto simp: save_and_signal_def call_proc_def split: sum.splits bool.splits)

lemma train_branch_config3:
  assumes "train_branch x t s = Inr s'"
  shows "train_freq s' = train_freq s \<and> update_target_freq s' = update_target_freq s \<and>
         save_freq s' = save_freq s \<and> start_train s' = start_train s"
  using assms
  by (auto simp add: train_branch_def call_fn_eq call_proc_def Let_def split_beta
      split: sum.splits bool.splits)

lemma train_model_iter_config:
  assumes "train_model_iter x t s = Inr s'"
  shows "train_freq s' = train_freq s \<and> update_target_freq s' = update_target_freq s \<and>
         save_freq s' = save_freq s \<and> start_train s' = start_train s"
proof (cases "train_cond s t")
  case (Inl e)
  with assms show ?thesis by (simp add: train_model_iter_def)
next
  case (Inr b)
  show ?thesis
  proof (cases b)
    case False
    with Inr assms have "save_and_signal x t (emit WaitActChosen s) = Inr s'"
      by (simp add: train_model_iter_def)
    from save_and_signal_config [OF this] show ?thesis by simp
  next
    case True
    with Inr assms obtain s1 where s1: "train_branch x t s = Inr s1"
      and s2: "save_and_signal x t s1 = Inr s'"
      by (auto simp: train_model_iter_def split: sum.splits)
    from train_branch_config3 [OF s1] save_and_signal_config [OF s2] show ?thesis by simp
  qed
qed

lemma iter_returns_cong:
  assumes "train_freq s' = train_freq s \<and> update_target_freq s' = update_target_freq s \<and>
         save_freq s' = save_freq s \<and> start_train s' = start_train s"
  shows "iter_returns s' t = iter_returns s t"
  using assms by (auto simp: iter_returns_def train_cond_def split: sum.splits)

lemma iter_returns_reached:
  assumes "iter_returns s t"
  shows "train_cond s t = Inr False \<or> (train_cond s t = Inr True \<and> update_target_freq s \<noteq> 0)"
    and "save_freq s \<noteq> 0"
  using assms by (auto simp: iter_returns_def split: sum.splits)

lemma train_model_iter_signals:
  assumes "iter_returns s t"
  shows "\<exists>s'. train_model_iter x t s = Inr s' \<and>
           count_list (calls s') SignalTrainDone = Suc (count_list (calls s) SignalTrainDone)"
proof -
  from train_model_iter_reached [OF iter_returns_reached [OF assms], of x]
  obtain s' where r: "train_model_iter x t s = Inr s'"
    and c: "calls s' = calls s @
             (if train_cond s t = Inr True
              then [ReplaySample (batch_size s), LrValue t, ExplorationValue t, WaitActChosen,
                    RunTrain (the_feed x t s)] @
                   (if t mod update_target_freq s = 0 then [RunUpdateTarget] else [])
              else [WaitActChosen]) @
             (if t mod save_freq s = 0 then [Save] else []) @ [SignalTrainDone]"
    by blast
  have "count_list (calls s') SignalTrainDone = Suc (count_list (calls s) SignalTrainDone)"
    unfolding c by simp
  with r show ?thesis by simp
qed

lemma train_model_loop_signals:
  assumes "\<forall>t \<in> set ts. iter_returns s t"
  shows "\<exists>s'. train_model_loop x ts s = Inr s' \<and>
           count_list (calls s') SignalTrainDone = count_list (calls s) SignalTrainDone + length ts"
  using assms
proof (induction ts arbitrary: s)
  case Nil
  show ?case by simp
next
  case (Cons t ts)
  from Cons.prems have "iter_returns s t" by simp
  from train_model_iter_signals [OF this, of x]
  obtain s1 where s1: "train_model_iter x t s = Inr s1"
    and c1: "count_list (calls s1) SignalTrainDone = Suc (count_list (calls s) SignalTrainDone)"
    by blast
  have "\<forall>u \<in> set ts. iter_returns s1 u"
    using Cons.prems iter_returns_cong [OF train_model_iter_config [OF s1]] by simp
  from Cons.IH [OF this] obtain s' where
    "train_model_loop x ts s1 = Inr s'"
    "count_list (calls s') SignalTrainDone = count_list (calls s1) SignalTrainDone + length ts"
    by blast
  with s1 c1 show ?case by simp
qed

lemma train_model_loop_raises:
  assumes "train_model_iter x t s = Inl r"
  shows "train_model_loop x (t # ts) s = Inl r"
  using assms by simp

lemma a_run_reachable: "reachable c orc s \<Longrightarrow> reachable c orc (a_run c orc n s)"
proof (induction n arbitrary: s)
  case 0
  then show ?case by simp
next
  case (Suc n)
  show ?case
  proof (cases "actor_step c orc s")
    case None
    with Suc.prems show ?thesis by simp
  next
    case (Some s')
    then have "reachable c orc s'"
      using Suc.prems by (blast intro: reachable.step step.actor)
    from Suc.IH [OF this] Some show ?thesis by simp
  qed
qed

lemma l_run_reachable: "reachable c orc s \<Longrightarrow> reachable c orc (l_run c k n s)"
proof (induction n arbitrary: s)
  case 0
  then show ?case by simp
next
  case (Suc n)
  show ?case
  proof (cases "learner_step c s")
    case None
    with Suc.prems show ?thesis by simp
  next
    case (Some s')
    then have "reachable c orc s'"
      using Suc.prems by (blast intro: reachable.step step.learner)
    from Suc.IH [OF this] Some Suc.prems show ?thesis by simp
  qed
qed

lemma a_run_round:
  assumes "a_pc s = A_wait" "train_done s"
  shows "a_run c orc 11 s =
           a_next_iter c (s\<lparr>train_done := False, act_chosen := True, a_pc := A_log\<rparr>)"
  using assms
  by (simp add: eval_nat_numeral actor_step_def ev_wait_def ev_signal_def a_next_iter_def)


lemma l_run_round:
  assumes "l_pc s = L_test" "l_iters s = k" "act_chosen s" "l_raised s = None"
    "iter_returns c (l_t s)"
  shows "l_run c (Suc k) 11 s =
           l_next_iter c (s\<lparr>started := (started s \<or> train_cond c (l_t s) = Inr True),
             act_chosen := False, train_done := True, l_pc := L_signal\<rparr>)"
  using assms
  by (cases "train_cond c (l_t s)")
     (auto simp add: eval_nat_numeral learner_step_def ev_wait_def ev_signal_def l_next_iter_def
        iter_returns_def py_divides_def py_mod_def split: if_splits)

lemma round_step:
  assumes "iter_returns c (start_step c + int k)"
    "reachable c orc s" "round_start c k s" "start_step c + int k < max_steps c"
  shows "\<exists>s'. reachable c orc s' \<and> round_start c (Suc k) s'"
proof -
  let ?s1 = "a_run c orc 11 s"
  let ?s2 = "l_run c (Suc k) 11 ?s1"
  have s1: "?s1 = a_next_iter c (s\<lparr>train_done := False, act_chosen := True, a_pc := A_log\<rparr>)"
    using assms(3) by (intro a_run_round) (simp_all add: round_start_def)
  have p1: "l_pc ?s1 = L_test" "l_iters ?s1 = k" "act_chosen ?s1" "l_raised ?s1 = None"
    using assms(3) unfolding s1 by (simp_all add: round_start_def a_next_iter_def)
  have p2: "iter_returns c (l_t ?s1)"
    using assms(1,3) unfolding s1 by (simp add: round_start_def a_next_iter_def)
  have s2: "?s2 = l_next_iter c (?s1\<lparr>started := (started ?s1 \<or> train_cond c (l_t ?s1) = Inr True),
             act_chosen := False, train_done := True, l_pc := L_signal\<rparr>)"
    using p1 p2 by (rule l_run_round)
  have "reachable c orc ?s2"
    by (intro l_run_reachable a_run_reachable assms(2))
  moreover have "round_start c (Suc k) ?s2"
    unfolding s2 unfolding s1 using assms(3,4)
    by (simp add: round_start_def a_next_iter_def l_next_iter_def)
  ultimately show ?thesis by blast
qed

lemma round_zero:
  assumes "start_step c \<le> max_steps c"
  shows "\<exists>s. reachable c orc s \<and> round_start c 0 s"
proof -
  let ?s = "a_run c orc 1 (init_sys c)"
  have "reachable c orc ?s"
    by (intro a_run_reachable reachable.init)
  moreover have "round_start c 0 ?s"
    using assms
    by (simp add: round_start_def init_sys_def actor_step_def loop_entry_l_def)
  ultimately show ?thesis by blast
qed

lemma round_reachable:
  assumes "\<forall>j < k. iter_returns c (start_step c + int j)"
    "start_step c + int k \<le> max_steps c"
  shows "\<exists>s. reachable c orc s \<and> round_start c k s"
  using assms
proof (induction k)
  case 0
  then show ?case using round_zero [of c orc] by simp
next
  case (Suc k)
  then obtain s where "reachable c orc s" "round_start c k s" by auto
  moreover have "start_step c + int k < max_steps c" using Suc.prems by simp
  moreover have "iter_returns c (start_step c + int k)" using Suc.prems by simp
  ultimately show ?case using round_step [of c k orc s] by blast
qed

lemma overlap_reachable:
  assumes "\<forall>u. start_step c \<le> u \<and> u < t \<longrightarrow> iter_returns c u"
    "start_step c \<le> t" "t \<le> max_steps c" "train_cond c t = Inr True"
  shows "\<exists>s. reachable c orc s \<and> l_pc s = L_sample \<and> l_t s = t \<and>
           a_pc s = A_store_frame \<and> a_t s = t"
    and "\<exists>s. reachable c orc s \<and> l_pc s = L_sample \<and> l_t s = t \<and>
           a_pc s = A_read_flag \<and> a_t s = t"
proof -
  define k where "k = nat (t - start_step c)"
  have t: "t = start_step c + int k" using assms(2) by (simp add: k_def)
  then have le: "start_step c + int k \<le> max_steps c" using assms(3) by simp
  have "\<forall>j < k. iter_returns c (start_step c + int j)"
    using assms(1) unfolding t by simp
  from round_reachable [OF this le]
  obtain s where r: "reachable c orc s" and rs: "round_start c k s" by blast
  let ?s1 = "l_run c (Suc k) 2 (a_run c orc 1 s)"
  let ?s2 = "l_run c (Suc k) 2 (a_run c orc 2 s)"
  have "reachable c orc ?s1"
    by (intro l_run_reachable a_run_reachable r)
  moreover have "reachable c orc ?s2"
    by (intro l_run_reachable a_run_reachable r)
  moreover have "l_pc ?s1 = L_sample \<and> l_t ?s1 = t \<and> a_pc ?s1 = A_store_frame \<and> a_t ?s1 = t"
    using rs assms(4) unfolding t
    by (simp add: eval_nat_numeral round_start_def actor_step_def learner_step_def ev_wait_def)
  moreover have "l_pc ?s2 = L_sample \<and> l_t ?s2 = t \<and> a_pc ?s2 = A_read_flag \<and> a_t ?s2 = t"
    using rs assms(4) unfolding t
    by (simp add: eval_nat_numeral round_start_def actor_step_def learner_step_def ev_wait_def)
  ultimately show "\<exists>s. reachable c orc s \<and> l_pc s = L_sample \<and> l_t s = t \<and>
           a_pc s = A_store_frame \<and> a_t s = t"
    and "\<exists>s. reachable c orc s \<and> l_pc s = L_sample \<and> l_t s = t \<and>
           a_pc s = A_read_flag \<and> a_t s = t"
    by blast+
qed

text \<open>
  C1. In an iteration of the actor loop every inference call lies between the wait on
  \<open>trainDone\<close> and the signal \<open>actChosen\<close> of that iteration; in an iteration of the
  learner loop the optimization call and the target refresh come after the wait on
  \<open>actChosen\<close> of that iteration (an iteration that raises at line 149 makes no call).
  Hence, in every state the two threads reach from the start, under any interleaving,
  the actor is not at its inference call while the learner is at one of its
  \<open>sess.run\<close> calls.
\<close>

theorem inference_optimization_exclusive:
  "(\<exists>pre post.
      calls (snd (run_env_iter x t last_obs s)) =
        calls s @ [WaitTrainDone] @ pre @ [SignalActChosen] @ post \<and>
      SignalActChosen \<notin> set pre \<and> WaitTrainDone \<notin> set pre \<and>
      WaitTrainDone \<notin> set post \<and> (\<forall>st. ControlAction st \<notin> set post)) \<and>
   (calls (final_agent (train_model_iter x t s)) = calls s \<or>
    (\<exists>pre post.
       calls (final_agent (train_model_iter x t s)) = calls s @ pre @ [WaitActChosen] @ post \<and>
       (\<forall>f. RunTrain f \<notin> set pre) \<and> RunUpdateTarget \<notin> set pre \<and>
       WaitActChosen \<notin> set post \<and> SignalTrainDone \<notin> set pre)) \<and>
   (\<forall>q. reachable c orc q \<longrightarrow> \<not> (inferring q \<and> optimizing q))"
  using run_env_iter_window [of x t last_obs s] train_model_iter_window [of x t s]
    mutual_exclusion [of c orc]
  by (intro conjI allI impI)

lemma demo_inferring_reachable: "reachable demo_config demo_decisions demo_inferring"
  unfolding demo_inferring_def
  by (intro a_run_reachable l_run_reachable reachable.init)

lemma demo_inferring_pc: "a_pc demo_inferring = A_infer \<and> a_t demo_inferring = 1"
  by (simp add: demo_inferring_def demo_config_def demo_agent_def demo_decisions_def
      init_sys_def loop_entry_l_def eval_nat_numeral actor_step_def learner_step_def
      ev_wait_def ev_signal_def a_next_iter_def l_next_iter_def train_cond_def
      py_divides_def py_mod_def)

theorem inference_optimization_exclusive_witness:
  "reachable demo_config demo_decisions demo_inferring \<and> inferring demo_inferring \<and>
   \<not> optimizing demo_inferring"
proof -
  have "\<forall>q. reachable demo_config demo_decisions q \<longrightarrow> \<not> (inferring q \<and> optimizing q)"
    using inference_optimization_exclusive [of demo_ext 0 0 demo_agent demo_config demo_decisions]
    by blast
  then have "\<not> (inferring demo_inferring \<and> optimizing demo_inferring)"
    using demo_inferring_reachable by blast
  moreover have "inferring demo_inferring"
    using demo_inferring_pc by (simp add: inferring_def)
  ultimately show ?thesis using demo_inferring_reachable by blast
qed

text \<open>
  C5. In an iteration of the learner loop that trains, the batch is sampled before the
  wait on \<open>actChosen\<close>: the calls of the iteration start with the sample, the two
  schedule values, the wait and the optimization. No wait precedes the sample, so the
  sample can overlap with the actor: at every training step \<open>t\<close> of the range that the
  learner gets to (no earlier iteration raises), the threads reach a state in which the
  learner is at the sample of step \<open>t\<close> while the actor is at \<open>store_frame\<close> of step
  \<open>t\<close>, and one in which the actor is at the start of its action choice of step \<open>t\<close>.
\<close>

theorem sample_before_wait:
  assumes "train_cond s t = Inr True"
  shows "(\<exists>feed rest. calls_since s (final_agent (train_model_iter x t s)) =
            [ReplaySample (batch_size s), LrValue t, ExplorationValue t, WaitActChosen,
             RunTrain feed] @ rest \<and>
            set rest \<subseteq> {RunUpdateTarget, Save, SignalTrainDone}) \<and>
         ((\<forall>u. start_step s \<le> u \<and> u < t \<longrightarrow> iter_returns s u) \<and>
          start_step s \<le> t \<and> t \<le> max_steps s \<longrightarrow>
            (\<exists>q. reachable s orc q \<and> l_pc q = L_sample \<and> l_t q = t \<and>
                  a_pc q = A_store_frame \<and> a_t q = t) \<and>
            (\<exists>q. reachable s orc q \<and> l_pc q = L_sample \<and> l_t q = t \<and>
                  a_pc q = A_read_flag \<and> a_t q = t))"
  using train_iter_prefix [OF assms, of x] overlap_reachable [of s t orc] assms
  by (intro conjI impI) simp_all

theorem sample_before_wait_witness:
  "train_cond (demo_agent\<lparr>update_target_freq := 0\<rparr>) 2 = Inr True \<and>
   (\<exists>q. reachable (demo_agent\<lparr>update_target_freq := 0\<rparr>) demo_decisions q \<and>
         l_pc q = L_sample \<and> l_t q = 2 \<and> a_pc q = A_store_frame \<and> a_t q = 2)"
proof -
  let ?a = "demo_agent\<lparr>update_target_freq := 0\<rparr>"
  have t: "train_cond ?a 2 = Inr True"
    by (simp add: train_cond_def py_divides_def py_mod_def demo_agent_def)
  have "iter_returns ?a u" if "start_step ?a \<le> u \<and> u < 2" for u
  proof -
    from that have "u < start_train ?a" by (simp add: demo_agent_def)
    then show ?thesis by (simp add: iter_returns_def train_cond_def demo_agent_def)
  qed
  then have h: "(\<forall>u. start_step ?a \<le> u \<and> u < 2 \<longrightarrow> iter_returns ?a u) \<and>
      start_step ?a \<le> 2 \<and> 2 \<le> max_steps ?a"
    by (simp add: demo_agent_def)
  from sample_before_wait [OF t, of demo_ext demo_decisions] h t show ?thesis by blast
qed

lemma rounds_parts:
  assumes "\<forall>t \<in> set (step_range s). iter_returns s t"
  shows "length (step_range s) = nat (max_steps s - start_step s + 1)"
    and "start_step s \<le> max_steps s + 1 \<longrightarrow>
           int (length (step_range s)) = max_steps s - start_step s + 1"
    and "count_list (calls (run_env x s)) WaitTrainDone =
           count_list (calls s) WaitTrainDone + length (step_range s)"
    and "\<exists>s'. train_model x s = Inr s' \<and>
           count_list (calls s') SignalTrainDone =
             count_list (calls s) SignalTrainDone + length (step_range s)"
    and "\<forall>q q'. reachable s orc q \<and> step s orc q q' \<longrightarrow> work s q' < work s q"
    and "\<forall>q. reachable s orc q \<and> \<not> finished q \<longrightarrow> (\<exists>q'. step s orc q q')"
    and "\<forall>q. reachable s orc q \<and> finished q \<longrightarrow>
           a_iters q = length (step_range s) \<and> l_iters q = length (step_range s)"
    and "\<exists>q. reachable s orc q \<and> finished q"
proof -
  have all: "\<forall>t. start_step s \<le> t \<and> t \<le> max_steps s \<longrightarrow> iter_returns s t"
    using assms by (simp add: step_range_def)
  show "length (step_range s) = nat (max_steps s - start_step s + 1)"
    by (simp add: step_range_def)
  then show "start_step s \<le> max_steps s + 1 \<longrightarrow>
           int (length (step_range s)) = max_steps s - start_step s + 1"
    by simp
  show "count_list (calls (run_env x s)) WaitTrainDone =
           count_list (calls s) WaitTrainDone + length (step_range s)"
    by (rule run_env_waits)
  show "\<exists>s'. train_model x s = Inr s' \<and>
           count_list (calls s') SignalTrainDone =
             count_list (calls s) SignalTrainDone + length (step_range s)"
    unfolding train_model_def using assms by (rule train_model_loop_signals)
  show "\<forall>q q'. reachable s orc q \<and> step s orc q q' \<longrightarrow> work s q' < work s q"
    by (blast intro: work_step)
  show "\<forall>q. reachable s orc q \<and> \<not> finished q \<longrightarrow> (\<exists>q'. step s orc q q')"
  proof (intro allI impI)
    fix q assume q: "reachable s orc q \<and> \<not> finished q"
    then have "tokens_inv q" "range_inv s q" using reachable_inv [of s orc q] by simp_all
    moreover have "l_raised q = None" using no_raise [OF all, of orc q] q by simp
    ultimately show "\<exists>q'. step s orc q q'" using progress [of q s orc] q by simp
  qed
  show "\<forall>q. reachable s orc q \<and> finished q \<longrightarrow>
           a_iters q = length (step_range s) \<and> l_iters q = length (step_range s)"
    using finished_iters [of s orc] by (simp add: total_iters_def)
  show "\<exists>q. reachable s orc q \<and> finished q"
    using reach_finished [OF all reachable.init] .
qed




text \<open>
  C9, as amended. Both loops iterate over the same range, of
  \<open>max_steps - start_step + 1\<close> steps when it is not empty. When no iteration of the
  learner raises at a step of the range, the actor loop alone makes that many iterations,
  and so does the learner loop; and together, under any interleaving, every step of the
  system decreases the work left, a state other than the end of both loops has a next
  step, the end of both loops is reached, and there both threads have completed that many
  iterations.
\<close>

theorem rounds_same_range:
  assumes "\<forall>t \<in> set (step_range s). iter_returns s t"
  shows "length (step_range s) = nat (max_steps s - start_step s + 1) \<and>
         (start_step s \<le> max_steps s + 1 \<longrightarrow>
            int (length (step_range s)) = max_steps s - start_step s + 1) \<and>
         count_list (calls (run_env x s)) WaitTrainDone =
            count_list (calls s) WaitTrainDone + length (step_range s) \<and>
         (\<exists>s'. train_model x s = Inr s' \<and>
            count_list (calls s') SignalTrainDone =
              count_list (calls s) SignalTrainDone + length (step_range s)) \<and>
         (\<forall>q q'. reachable s orc q \<and> step s orc q q' \<longrightarrow> work s q' < work s q) \<and>
         (\<forall>q. reachable s orc q \<and> \<not> finished q \<longrightarrow> (\<exists>q'. step s orc q q')) \<and>
         (\<forall>q. reachable s orc q \<and> finished q \<longrightarrow>
            a_iters q = length (step_range s) \<and> l_iters q = length (step_range s)) \<and>
         (\<exists>q. reachable s orc q \<and> finished q)"
  using rounds_parts(1) [OF assms] rounds_parts(2) [OF assms]
    rounds_parts(3) [OF assms, of x] rounds_parts(4) [OF assms, of x]
    rounds_parts(5) [OF assms, of orc] rounds_parts(6) [OF assms, of orc]
    rounds_parts(7) [OF assms, of orc] rounds_parts(8) [OF assms, of orc]
  by (intro conjI)

lemma demo_step_range: "step_range demo_agent = [0, 1, 2, 3]"
  by (simp add: step_range_def demo_agent_def upto.simps)

theorem rounds_same_range_witness:
  "length (step_range demo_agent) = 4 \<and>
   count_list (calls (run_env demo_ext demo_agent)) WaitTrainDone = 4 \<and>
   (\<exists>q. reachable demo_agent demo_decisions q \<and> finished q \<and> a_iters q = 4 \<and> l_iters q = 4)"
proof -
  have h: "\<forall>t \<in> set (step_range demo_agent). iter_returns demo_agent t"
    unfolding demo_step_range
    by (simp add: iter_returns_def train_cond_def py_divides_def py_mod_def demo_agent_def)
  note L = rounds_same_range [OF h, of demo_ext demo_decisions]
  have n: "length (step_range demo_agent) = 4"
    unfolding demo_step_range by simp
  have "count_list (calls (run_env demo_ext demo_agent)) WaitTrainDone =
          count_list (calls demo_agent) WaitTrainDone + length (step_range demo_agent)"
    using L [THEN conjunct2, THEN conjunct2, THEN conjunct1] .
  then have c: "count_list (calls (run_env demo_ext demo_agent)) WaitTrainDone = 4"
    unfolding n by (simp add: demo_agent_def)
  have f: "\<forall>q. reachable demo_agent demo_decisions q \<and> finished q \<longrightarrow>
            a_iters q = length (step_range demo_agent) \<and>
            l_iters q = length (step_range demo_agent)"
    using L [THEN conjunct2, THEN conjunct2, THEN conjunct2, THEN conjunct2, THEN conjunct2,
      THEN conjunct2, THEN conjunct1] .
  obtain q where q: "reachable demo_agent demo_decisions q \<and> finished q"
    using L [THEN conjunct2, THEN conjunct2, THEN conjunct2, THEN conjunct2, THEN conjunct2,
      THEN conjunct2, THEN conjunct2] ..
  with f have "a_iters q = 4 \<and> l_iters q = 4" unfolding n by simp
  with q have "\<exists>q. reachable demo_agent demo_decisions q \<and> finished q \<and>
      a_iters q = 4 \<and> l_iters q = 4" by (intro exI [of _ q]) simp
  with n c show ?thesis by (intro conjI)
qed

lemma train_model_iter_raises_175:
  assumes "train_cond s t = Inr True" "update_target_freq s = 0"
  shows "\<exists>s'. train_model_iter x t s = Inl (ZeroDivisionError, s') \<and>
           count_list (calls s') SignalTrainDone = count_list (calls s) SignalTrainDone"
  using assms
  by (simp add: train_model_iter_def train_branch_def call_fn_eq call_proc_def Let_def
      split_beta py_divides_def py_mod_def)

text \<open>
  The claim C9 as stated fails: with \<open>update_target_freq = 0\<close>, which the assertion of
  line 39 accepts, the learner loop over the four steps 0 to 3 ends with the exception of
  line 175 at step 2, its first training step, after two complete iterations.
\<close>

theorem rounds_same_range_counterexample:
  "length (step_range (demo_agent\<lparr>update_target_freq := 0\<rparr>)) = 4 \<and>
   isl (train_model demo_ext (demo_agent\<lparr>update_target_freq := 0\<rparr>)) \<and>
   count_list (calls (final_agent (train_model demo_ext (demo_agent\<lparr>update_target_freq := 0\<rparr>))))
     SignalTrainDone = 2"
proof -
  let ?a = "demo_agent\<lparr>update_target_freq := 0\<rparr>"
  have r: "step_range ?a = [0, 1, 2, 3]"
    by (simp add: step_range_def demo_agent_def upto.simps)
  have c0: "count_list (calls ?a) SignalTrainDone = 0"
    by (simp add: demo_agent_def)
  have "iter_returns ?a 0"
    by (simp add: iter_returns_def train_cond_def demo_agent_def)
  from train_model_iter_signals [OF this, of demo_ext]
  obtain s1 where s1: "train_model_iter demo_ext 0 ?a = Inr s1"
    and c1: "count_list (calls s1) SignalTrainDone = 1"
    unfolding c0 by auto
  have k1: "train_freq s1 = 2 \<and> update_target_freq s1 = 0 \<and> save_freq s1 = 3 \<and>
      start_train s1 = 2"
    using train_model_iter_config [OF s1] by (simp add: demo_agent_def)
  then have "iter_returns s1 1"
    by (simp add: iter_returns_def train_cond_def)
  from train_model_iter_signals [OF this, of demo_ext]
  obtain s2 where s2: "train_model_iter demo_ext 1 s1 = Inr s2"
    and c2: "count_list (calls s2) SignalTrainDone = 2"
    unfolding c1 by auto
  have k2: "train_freq s2 = 2 \<and> update_target_freq s2 = 0 \<and> save_freq s2 = 3 \<and>
      start_train s2 = 2"
    using train_model_iter_config [OF s2] k1 by simp
  then have "train_cond s2 2 = Inr True" "update_target_freq s2 = 0"
    by (simp_all add: train_cond_def py_divides_def py_mod_def)
  from train_model_iter_raises_175 [OF this, of demo_ext]
  obtain s3 where s3: "train_model_iter demo_ext 2 s2 = Inl (ZeroDivisionError, s3)"
    and c3: "count_list (calls s3) SignalTrainDone = 2"
    unfolding c2 by auto
  have "train_model demo_ext ?a = Inl (ZeroDivisionError, s3)"
    unfolding train_model_def r using s1 s2 s3 by simp
  with c3 r show ?thesis by simp
qed

end
